theory Spec2Isabelle
  imports Complex_Main "HOL-Library.AList"
begin

section \<open>JavaScript values\<close>

text \<open>
  \<open>hasValidAddress\<close> inspects its argument dynamically (\<open>isObject\<close>, \<open>typeof\<close>,
  property reads), so its argument is a JavaScript value. Objects are association lists
  from property names to values; arrays and functions carry no named properties of their
  own. Strings are lists of code units below 256. Numbers carry a real; they are only
  tested for their type and for being zero.
\<close>

datatype jsval =
    JUndefined
  | JNull
  | JBool bool
  | JNum real
  | JStr string
  | JFun
  | JArr "jsval list"
  | JObj "(string \<times> jsval) list"

text \<open>What a JavaScript operation throws: a \<open>TypeError\<close> of the language, or the error
  the document model throws when it rejects a value.\<close>

datatype exn = TypeError | ModelError

definition bind :: "exn + 'a \<Rightarrow> ('a \<Rightarrow> exn + 'b) \<Rightarrow> exn + 'b" where
  "bind m f = (case m of Inl e \<Rightarrow> Inl e | Inr x \<Rightarrow> f x)"

fun typeof :: "jsval \<Rightarrow> string" where
  "typeof JUndefined = ''undefined''"
| "typeof JNull = ''object''"
| "typeof (JBool b) = ''boolean''"
| "typeof (JNum r) = ''number''"
| "typeof (JStr s) = ''string''"
| "typeof JFun = ''function''"
| "typeof (JArr xs) = ''object''"
| "typeof (JObj kvs) = ''object''"

text \<open>The package \<open>is-object\<close>: \<open>typeof x === 'object' && x !== null\<close>.\<close>

definition isObject :: "jsval \<Rightarrow> bool" where
  "isObject x = (typeof x = ''object'' \<and> x \<noteq> JNull)"

text \<open>\<open>!x\<close> is \<open>\<not> truthy x\<close>.\<close>

fun truthy :: "jsval \<Rightarrow> bool" where
  "truthy JUndefined = False"
| "truthy JNull = False"
| "truthy (JBool b) = b"
| "truthy (JNum r) = (r \<noteq> 0)"
| "truthy (JStr s) = (s \<noteq> [])"
| "truthy JFun = True"
| "truthy (JArr xs) = True"
| "truthy (JObj kvs) = True"

text \<open>
  The property read \<open>x.p\<close>. On \<open>undefined\<close> and \<open>null\<close> it throws; on an object it is
  the property's value, \<open>undefined\<close> when the object has none; a string has its \<open>length\<close>.
  The names read in this program (\<open>address\<close>, \<open>number\<close>, \<open>street\<close>, \<open>name\<close>, \<open>zip\<close>) are
  on no built-in prototype, so every other read is \<open>undefined\<close>.
\<close>

fun get_prop :: "jsval \<Rightarrow> string \<Rightarrow> exn + jsval" where
  "get_prop JUndefined p = Inl TypeError"
| "get_prop JNull p = Inl TypeError"
| "get_prop (JObj kvs) p = Inr (case map_of kvs p of None \<Rightarrow> JUndefined | Some v \<Rightarrow> v)"
| "get_prop (JStr s) p = Inr (if p = ''length'' then JNum (of_nat (length s)) else JUndefined)"
| "get_prop (JArr xs) p = Inr (if p = ''length'' then JNum (of_nat (length xs)) else JUndefined)"
| "get_prop v p = Inr JUndefined"

text \<open>The assignment \<open>x[p] = v\<close>, returning the object assigned to. On a primitive value
  it has no effect outside strict mode.\<close>

fun set_prop :: "jsval \<Rightarrow> string \<Rightarrow> jsval \<Rightarrow> exn + jsval" where
  "set_prop JUndefined p v = Inl TypeError"
| "set_prop JNull p v = Inl TypeError"
| "set_prop (JObj kvs) p v = Inr (JObj (AList.update p v kvs))"
| "set_prop x p v = Inr x"

section \<open>Strings\<close>

text \<open>\<open>String.prototype.split\<close> with a separator of one character: the pieces between
  the separators, empty pieces kept, so there is always at least one piece.\<close>

fun js_split :: "char \<Rightarrow> string \<Rightarrow> string list" where
  "js_split sep [] = [[]]"
| "js_split sep (c # cs) =
     (if c = sep then [] # js_split sep cs
      else (c # hd (js_split sep cs)) # tl (js_split sep cs))"

text \<open>\<open>x.split(';')\<close> on a value: only a string has the method.\<close>

fun split_semicolon :: "jsval \<Rightarrow> exn + string list" where
  "split_semicolon (JStr s) = Inr (js_split (CHR '';'') s)"
| "split_semicolon v = Inl TypeError"

text \<open>The white space and line terminators of ECMAScript among the code units below 256:
  TAB, LF, VT, FF, CR, SP and NBSP.\<close>

definition is_whitespace :: "char \<Rightarrow> bool" where
  "is_whitespace c \<longleftrightarrow>
     c \<in> {CHR 0x09, CHR 0x0A, CHR 0x0B, CHR 0x0C, CHR 0x0D, CHR 0x20, CHR 0xA0}"

text \<open>\<open>String.prototype.trim\<close>.\<close>

definition js_trim :: "string \<Rightarrow> string" where
  "js_trim s = rev (dropWhile is_whitespace (rev (dropWhile is_whitespace s)))"

text \<open>\<open>Array.prototype.join\<close> on an array of strings.\<close>

fun join :: "string \<Rightarrow> string list \<Rightarrow> string" where
  "join sep [] = []"
| "join sep [x] = x"
| "join sep (x # y # ys) = x @ sep @ join sep (y # ys)"

text \<open>The decimal digits of a counter value, as \<open>join\<close> converts a number to a string.\<close>

definition digit_char :: "nat \<Rightarrow> char" where
  "digit_char d = char_of (48 + d)"

fun string_of_nat :: "nat \<Rightarrow> string" where
  "string_of_nat n =
     (if n < 10 then [digit_char n]
      else string_of_nat (n div 10) @ [digit_char (n mod 10)])"

section \<open>hasValidAddress\<close>

text \<open>
  \<^verbatim>\<open>
  function hasValidAddress( doc ){
    if( !isObject( doc ) ){ return false; }
    if( !isObject( doc.address ) ){ return false; }
    if( 'string' !== typeof doc.address.number ){ return false; }
    if( 'string' !== typeof doc.address.street ){ return false; }
    if( !doc.address.number.length ){ return false; }
    if( !doc.address.street.length ){ return false; }
    return true;
  }
  \<close>
  Every property read is a read that may throw; the result is the returned boolean or
  the exception.
\<close>

definition hasValidAddress :: "jsval \<Rightarrow> exn + bool" where
  "hasValidAddress doc =
     (if \<not> isObject doc then Inr False else
      bind (get_prop doc ''address'') (\<lambda>address.
      if \<not> isObject address then Inr False else
      bind (get_prop address ''number'') (\<lambda>number.
      if ''string'' \<noteq> typeof number then Inr False else
      bind (get_prop address ''street'') (\<lambda>street.
      if ''string'' \<noteq> typeof street then Inr False else
      bind (get_prop number ''length'') (\<lambda>nlen.
      if \<not> truthy nlen then Inr False else
      bind (get_prop street ''length'') (\<lambda>slen.
      if \<not> truthy slen then Inr False else
      Inr True))))))"

section \<open>The document model\<close>

text \<open>
  \<open>Document\<close> comes from the package \<open>pelias-model\<close>, outside this repository. A document
  is the record of what its getters return. A setter stores its argument and returns the
  document, or throws when the model rejects the argument; what the model rejects is not
  fixed here: it is the parameter \<open>rules\<close>, one predicate for the constructor and one for
  each setter. An absent value (\<open>undefined\<close>) is \<open>None\<close>; a centroid is absent (the
  getter's \<open>{}\<close>) or a pair of latitude and longitude. The property \<open>address\<close> stays a
  JavaScript value, since \<open>hasValidAddress\<close> inspects its shape.
\<close>

record document =
  doc_id :: string
  doc_type :: string
  source :: string
  source_id :: "string option"
  name :: "string \<rightharpoonup> string"
  center_point :: "(real \<times> real) option"
  address :: jsval
  alpha3 :: "string option"
  admin :: "string \<rightharpoonup> string"
  meta :: "string \<rightharpoonup> jsval"

record rules =
  ok_new :: "string \<Rightarrow> string \<Rightarrow> string \<Rightarrow> bool"
  ok_name :: "string \<Rightarrow> string \<Rightarrow> bool"
  ok_centroid :: "(real \<times> real) option \<Rightarrow> bool"
  ok_source_id :: "string option \<Rightarrow> bool"
  ok_address :: "string \<Rightarrow> jsval \<Rightarrow> bool"
  ok_alpha3 :: "string option \<Rightarrow> bool"
  ok_admin :: "string \<Rightarrow> string option \<Rightarrow> bool"

text \<open>\<open>new Document( source, type, id )\<close>: the third argument is the id and, until
  \<open>setSourceId\<close> replaces it, the source id.\<close>

definition new_Document :: "rules \<Rightarrow> string \<Rightarrow> string \<Rightarrow> string \<Rightarrow> exn + document" where
  "new_Document R src type ident =
     (if ok_new R src type ident
      then Inr \<lparr> doc_id = ident, doc_type = type, source = src, source_id = Some ident,
                 name = Map.empty, center_point = None, address = JObj [], alpha3 = None,
                 admin = Map.empty, meta = Map.empty \<rparr>
      else Inl ModelError)"

definition getName :: "document \<Rightarrow> string \<Rightarrow> string option" where
  "getName d prop = name d prop"

definition setName :: "rules \<Rightarrow> string \<Rightarrow> string \<Rightarrow> document \<Rightarrow> exn + document" where
  "setName R prop v d =
     (if ok_name R prop v then Inr (d\<lparr> name := (name d)(prop \<mapsto> v) \<rparr>) else Inl ModelError)"

definition setCentroid :: "rules \<Rightarrow> (real \<times> real) option \<Rightarrow> document \<Rightarrow> exn + document" where
  "setCentroid R c d =
     (if ok_centroid R c then Inr (d\<lparr> center_point := c \<rparr>) else Inl ModelError)"

definition setSourceId :: "rules \<Rightarrow> string option \<Rightarrow> document \<Rightarrow> exn + document" where
  "setSourceId R v d =
     (if ok_source_id R v then Inr (d\<lparr> source_id := v \<rparr>) else Inl ModelError)"

definition getAddress :: "document \<Rightarrow> string \<Rightarrow> exn + jsval" where
  "getAddress d prop = get_prop (address d) prop"

definition setAddress :: "rules \<Rightarrow> string \<Rightarrow> jsval \<Rightarrow> document \<Rightarrow> exn + document" where
  "setAddress R prop v d =
     (if ok_address R prop v
      then bind (set_prop (address d) prop v) (\<lambda>a. Inr (d\<lparr> address := a \<rparr>))
      else Inl ModelError)"

definition setAlpha3 :: "rules \<Rightarrow> string option \<Rightarrow> document \<Rightarrow> exn + document" where
  "setAlpha3 R v d =
     (if ok_alpha3 R v then Inr (d\<lparr> alpha3 := v \<rparr>) else Inl ModelError)"

definition setAdmin :: "rules \<Rightarrow> string \<Rightarrow> string option \<Rightarrow> document \<Rightarrow> exn + document" where
  "setAdmin R level v d =
     (if ok_admin R level v then Inr (d\<lparr> admin := (admin d)(level := v) \<rparr>)
      else Inl ModelError)"

text \<open>The document as the JavaScript object \<open>hasValidAddress\<close> receives: of its properties
  only \<open>address\<close> is read there.\<close>

definition js_of_document :: "document \<Rightarrow> jsval" where
  "js_of_document d = JObj [(''address'', address d)]"

section \<open>setProperties\<close>

definition addrProps :: "string list" where
  "addrProps = [''name'', ''number'', ''street'', ''zip'']"

definition adminProps :: "string list" where
  "adminProps = [''admin0'', ''admin1'', ''admin1_abbr'', ''admin2'', ''local_admin'',
                 ''locality'', ''neighborhood'']"

text \<open>\<open>try { record.setX( ... ) } catch ( ex ) {}\<close>: the record as the setter left it, or
  unchanged when the getter or the setter threw.\<close>

definition ignore_errors :: "document \<Rightarrow> exn + document \<Rightarrow> document" where
  "ignore_errors record m = (case m of Inl ex \<Rightarrow> record | Inr record' \<Rightarrow> record')"

definition setProperties :: "rules \<Rightarrow> document \<Rightarrow> document \<Rightarrow> document" where
  "setProperties R record doc =
     (let r1 = fold (\<lambda>prop r.
                  ignore_errors r (bind (getAddress doc prop) (\<lambda>v. setAddress R prop v r)))
                addrProps record;
          r2 = ignore_errors r1 (setAlpha3 R (alpha3 doc) r1);
          r3 = fold (\<lambda>level r. ignore_errors r (setAdmin R level (admin doc level) r))
                adminProps r2
      in r3)"

section \<open>The address extractor\<close>

text \<open>
  \<^verbatim>\<open>
  var stream = through.obj( function( doc, enc, next ) {
    var isNamedPoi = !!doc.getName('default');
    if( hasValidAddress( doc ) ){
      var type = isNamedPoi ? 'poi-address' : 'address';
      var record;
      var streetnumbers = doc.address.number.split(';')
        .map(Function.prototype.call, String.prototype.trim);
      streetnumbers.forEach( function( streetno, i ){
        try {
          var newid = [ 'osm', doc.getType(), type, (doc.getSourceId() || ++idOrdinal) ];
          if( i > 0 ){ newid.push( streetno ); }
          record = new Document( 'osm', 'address', newid.join('-') )
            .setName( 'default', streetno + ' ' + doc.address.street )
            .setCentroid( doc.getCentroid() )
            .setSourceId(doc.getSourceId());
          setProperties( record, doc );
        }
        catch( e ){
          peliasLogger.error( 'address_extractor error' );
          peliasLogger.error( e.stack );
          peliasLogger.error( JSON.stringify( doc, null, 2 ) );
        }
        if( record !== undefined ){
          record._meta = extend( true, {}, doc._meta,
            { id: record.getId(), type: record.getType() } );
          this.push( record );
        }
      }, this);
    }
    if( isNamedPoi ){
      this.push( doc );
    }
    return next();
  });
  \<close>
\<close>

text \<open>
  The module's state is the counter \<open>idOrdinal\<close> and what has been sent to the logger.
  \<open>JSON.stringify( doc, null, 2 )\<close> is logged as the document it serializes.
\<close>

datatype log_entry = LogText string | LogStack exn | LogDoc document

record state =
  idOrdinal :: nat
  logged :: "log_entry list"

definition init_state :: state where
  "init_state = \<lparr> idOrdinal = 0, logged = [] \<rparr>"

text \<open>
  \<open>++idOrdinal\<close>. The counter is a JavaScript number, a double that starts at 0 and
  holds a whole number: up to \<open>2^53\<close> the increment is exact, and at \<open>2^53\<close> it leaves the
  counter unchanged, since \<open>2^53 + 1\<close> is no double and rounds to \<open>2^53\<close>.
\<close>

definition increment :: "nat \<Rightarrow> nat" where
  "increment n = (if n < 2 ^ 53 then Suc n else n)"

text \<open>\<open>(doc.getSourceId() || ++idOrdinal)\<close>, as \<open>join\<close> prints it, with the counter after it.
  An absent and an empty source id are falsy.\<close>

definition id_base :: "document \<Rightarrow> nat \<Rightarrow> string \<times> nat" where
  "id_base doc ord =
     (case source_id doc of
        None \<Rightarrow> (string_of_nat (increment ord), increment ord)
      | Some s \<Rightarrow>
          if s \<noteq> [] then (s, ord) else (string_of_nat (increment ord), increment ord))"

text \<open>\<open>newid.join('-')\<close> for
  \<open>newid = [ 'osm', doc.getType(), type, base ]; if( i > 0 ){ newid.push( streetno ); }\<close>.\<close>

definition new_id :: "string \<Rightarrow> string \<Rightarrow> string \<Rightarrow> nat \<Rightarrow> string \<Rightarrow> string" where
  "new_id dtype type base i streetno =
     join ''-'' ([''osm'', dtype, type, base] @ (if i > 0 then [streetno] else []))"

text \<open>The \<open>try\<close> block of the callback: the counter after it, and the record built or the
  exception thrown. \<open>street\<close> is \<open>doc.address.street\<close>.\<close>

definition try_block ::
  "rules \<Rightarrow> document \<Rightarrow> string \<Rightarrow> string \<Rightarrow> string \<Rightarrow> nat \<Rightarrow> nat \<Rightarrow> nat \<times> (exn + document)" where
  "try_block R doc type street streetno i ord =
     (let (base, ord') = id_base doc ord;
          newid = new_id (doc_type doc) type base i streetno
      in (ord',
          bind (new_Document R ''osm'' ''address'' newid) (\<lambda>r.
          bind (setName R ''default'' (streetno @ '' '' @ street) r) (\<lambda>r.
          bind (setCentroid R (center_point doc) r) (\<lambda>r.
          bind (setSourceId R (source_id doc) r) (\<lambda>r.
          Inr (setProperties R r doc)))))))"

text \<open>
  The variables the callback of \<open>streetnumbers.forEach\<close> reads and writes: the module
  state, the variable \<open>record\<close> (declared once, before the loop) and the documents pushed
  so far.
\<close>

record frame =
  fstate :: state
  frecord :: "document option"
  pushed :: "document list"

text \<open>\<open>extend( true, {}, doc._meta, { id: record.getId(), type: record.getType() } )\<close>.\<close>

definition extend_meta :: "document \<Rightarrow> document \<Rightarrow> string \<rightharpoonup> jsval" where
  "extend_meta doc record =
     (meta doc)(''id'' \<mapsto> JStr (doc_id record), ''type'' \<mapsto> JStr (doc_type record))"

text \<open>One call of the callback, for the house number \<open>streetno\<close> at index \<open>i\<close>. In the
  \<open>catch\<close> branch \<open>record\<close> keeps the value it had.\<close>

definition each_streetno ::
  "rules \<Rightarrow> document \<Rightarrow> string \<Rightarrow> string \<Rightarrow> string \<Rightarrow> nat \<Rightarrow> frame \<Rightarrow> frame" where
  "each_streetno R doc type street streetno i fr =
     (let (ord', res) = try_block R doc type street streetno i (idOrdinal (fstate fr));
          st1 = (fstate fr)\<lparr> idOrdinal := ord' \<rparr>;
          (record, st2) =
            (case res of
               Inr r \<Rightarrow> (Some r, st1)
             | Inl e \<Rightarrow>
                 (frecord fr,
                  st1\<lparr> logged := logged st1 @
                    [LogText ''address_extractor error'', LogStack e, LogDoc doc] \<rparr>))
      in case record of
           None \<Rightarrow> \<lparr> fstate = st2, frecord = None, pushed = pushed fr \<rparr>
         | Some r \<Rightarrow>
             (let r' = r\<lparr> meta := extend_meta doc r \<rparr>
              in \<lparr> fstate = st2, frecord = Some r', pushed = pushed fr @ [r'] \<rparr>))"

fun forEach_streetno ::
  "rules \<Rightarrow> document \<Rightarrow> string \<Rightarrow> string \<Rightarrow> string list \<Rightarrow> nat \<Rightarrow> frame \<Rightarrow> frame" where
  "forEach_streetno R doc type street [] i fr = fr"
| "forEach_streetno R doc type street (streetno # rest) i fr =
     forEach_streetno R doc type street rest (Suc i)
       (each_streetno R doc type street streetno i fr)"

text \<open>\<open>!!doc.getName('default')\<close>.\<close>

definition isNamedPoi :: "document \<Rightarrow> bool" where
  "isNamedPoi doc = (case getName doc ''default'' of None \<Rightarrow> False | Some s \<Rightarrow> s \<noteq> [])"

text \<open>\<open>var type = isNamedPoi ? 'poi-address' : 'address';\<close>\<close>

definition address_type :: "document \<Rightarrow> string" where
  "address_type doc = (if isNamedPoi doc then ''poi-address'' else ''address'')"

text \<open>\<open>doc.address.number.split(';').map(Function.prototype.call, String.prototype.trim)\<close>.\<close>

definition streetnumbers :: "document \<Rightarrow> exn + string list" where
  "streetnumbers doc =
     bind (get_prop (address doc) ''number'') (\<lambda>number.
     bind (split_semicolon number) (\<lambda>parts. Inr (map js_trim parts)))"

text \<open>
  The body of \<open>if( hasValidAddress( doc ) ){ ... }\<close>: the state after it and the documents
  it pushes. \<open>hasValidAddress\<close> has found \<open>doc.address.street\<close> to be a string; the
  coercion that \<open>+\<close> would apply to another value is not modelled, and the last case is
  never taken (\<open>transform_total\<close> below).
\<close>

definition address_records :: "rules \<Rightarrow> state \<Rightarrow> document \<Rightarrow> exn + state \<times> document list" where
  "address_records R st doc =
     (let type = address_type doc in
      bind (streetnumbers doc) (\<lambda>nums.
      bind (get_prop (address doc) ''street'') (\<lambda>street.
      case street of
        JStr s \<Rightarrow>
          (let fr = forEach_streetno R doc type s nums 0
                      \<lparr> fstate = st, frecord = None, pushed = [] \<rparr>
           in Inr (fstate fr, pushed fr))
      | _ \<Rightarrow> Inl TypeError)))"

text \<open>The transform function of the stream: the state after one input document and the
  documents pushed for it, in order; \<open>Inl\<close> is an exception that leaves the function.\<close>

definition transform :: "rules \<Rightarrow> state \<Rightarrow> document \<Rightarrow> exn + state \<times> document list" where
  "transform R st doc =
     bind (hasValidAddress (js_of_document doc)) (\<lambda>valid.
     bind (if valid then address_records R st doc else Inr (st, [])) (\<lambda>(st', out).
     Inr (st', if isNamedPoi doc then out @ [doc] else out)))"

text \<open>A run of the stream over its inputs: the outputs of each input, in input order.\<close>

fun run :: "rules \<Rightarrow> state \<Rightarrow> document list \<Rightarrow> exn + state \<times> document list list" where
  "run R st [] = Inr (st, [])"
| "run R st (doc # docs) =
     bind (transform R st doc) (\<lambda>(st', out).
     bind (run R st' docs) (\<lambda>(st'', outs). Inr (st'', out # outs)))"

section \<open>The document constructor\<close>

text \<open>
  Modelled from the spec: the stage \<open>DocumentConstructor\<close>
  (\<open>stream/document_constructor.js\<close>), of which the repository's sources here hold only
  the tests. A raw record is a bag of optional fields. The stage builds a document from
  the fixed provenance tag, the record's type (\<open>venue\<close> when absent) and the record's id;
  a record without an id has no identity to construct and the model rejects it. The
  centroid comes from \<open>lat\<close> and \<open>lon\<close> when both are present, else from \<open>centroid\<close> when
  present, else it stays unset. \<open>nodes\<close> and \<open>tags\<close> are attached to the metadata when
  present. When the constructor or a setter throws, the error is logged, nothing is
  emitted and the stage goes on with the next input.
\<close>

record raw_record =
  raw_id :: "string option"
  raw_type :: "string option"
  raw_lat :: "real option"
  raw_lon :: "real option"
  raw_centroid :: "(real \<times> real) option"
  raw_nodes :: "jsval option"
  raw_tags :: "jsval option"

text \<open>Modelled from the spec: the record \<open>{}\<close>.\<close>

definition empty_record :: raw_record where
  "empty_record = \<lparr> raw_id = None, raw_type = None, raw_lat = None, raw_lon = None,
                     raw_centroid = None, raw_nodes = None, raw_tags = None \<rparr>"

text \<open>Modelled from the spec: centroid resolution, \<open>lat\<close> and \<open>lon\<close> before \<open>centroid\<close>.\<close>

definition resolve_centroid :: "raw_record \<Rightarrow> (real \<times> real) option" where
  "resolve_centroid raw =
     (case (raw_lat raw, raw_lon raw) of
        (Some la, Some lo) \<Rightarrow> Some (la, lo)
      | _ \<Rightarrow> raw_centroid raw)"

text \<open>Modelled from the spec: the construction of the document, which throws where the
  constructor or \<open>setCentroid\<close> does.\<close>

definition build_document :: "rules \<Rightarrow> raw_record \<Rightarrow> exn + document" where
  "build_document R raw =
     bind (case raw_id raw of
             None \<Rightarrow> Inl ModelError
           | Some i \<Rightarrow>
               new_Document R ''osm''
                 (case raw_type raw of None \<Rightarrow> ''venue'' | Some t \<Rightarrow> t) i) (\<lambda>d.
     bind (case resolve_centroid raw of
             None \<Rightarrow> Inr d
           | Some c \<Rightarrow> setCentroid R (Some c) d) (\<lambda>d.
     Inr (d\<lparr> meta := (meta d)(''nodes'' := raw_nodes raw, ''tags'' := raw_tags raw) \<rparr>)))"

text \<open>Modelled from the spec: one input of the stage, with the log after it and the
  documents emitted for it; \<open>Inl\<close> would be an error that reaches the stream.\<close>

definition document_constructor ::
  "rules \<Rightarrow> log_entry list \<Rightarrow> raw_record \<Rightarrow> exn + log_entry list \<times> document list" where
  "document_constructor R lg raw =
     (case build_document R raw of
        Inl e \<Rightarrow> Inr (lg @ [LogStack e], [])
      | Inr d \<Rightarrow> Inr (lg, [d]))"

text \<open>Modelled from the spec: the stage over its inputs, in order.\<close>

fun construct_all ::
  "rules \<Rightarrow> log_entry list \<Rightarrow> raw_record list \<Rightarrow> exn + log_entry list \<times> document list" where
  "construct_all R lg [] = Inr (lg, [])"
| "construct_all R lg (raw # raws) =
     bind (document_constructor R lg raw) (\<lambda>(lg', out).
     bind (construct_all R lg' raws) (\<lambda>(lg'', outs). Inr (lg'', out @ outs)))"

section \<open>Notions used in the statements\<close>

text \<open>The documents pushed for one input.\<close>

definition emitted :: "rules \<Rightarrow> state \<Rightarrow> document \<Rightarrow> exn + document list" where
  "emitted R st doc = bind (transform R st doc) (\<lambda>(st', out). Inr out)"

text \<open>The documents pushed by the body of \<open>if( hasValidAddress( doc ) )\<close>.\<close>

definition address_documents :: "rules \<Rightarrow> state \<Rightarrow> document \<Rightarrow> exn + document list" where
  "address_documents R st doc = bind (address_records R st doc) (\<lambda>(st', out). Inr out)"

text \<open>What that body has sent to the logger when it ends.\<close>

definition address_log :: "rules \<Rightarrow> state \<Rightarrow> document \<Rightarrow> exn + log_entry list" where
  "address_log R st doc = bind (address_records R st doc) (\<lambda>(st', out). Inr (logged st'))"

text \<open>The address documents among the documents pushed for \<open>doc\<close>: all of them but the
  forwarded original, which is pushed last and only for a named POI.\<close>

definition derived :: "document \<Rightarrow> document list \<Rightarrow> document list" where
  "derived doc out = (if isNamedPoi doc then butlast out else out)"

text \<open>No \<open>try\<close> block of the loop throws: the loop over the house numbers \<open>nums\<close> from
  index \<open>i\<close> and counter \<open>ord\<close> on.\<close>

fun constructs_ok ::
  "rules \<Rightarrow> document \<Rightarrow> string \<Rightarrow> string \<Rightarrow> string list \<Rightarrow> nat \<Rightarrow> nat \<Rightarrow> bool" where
  "constructs_ok R doc type street [] i ord = True"
| "constructs_ok R doc type street (streetno # rest) i ord =
     (case try_block R doc type street streetno i ord of
        (ord', Inr r) \<Rightarrow> constructs_ok R doc type street rest (Suc i) ord'
      | (ord', Inl e) \<Rightarrow> False)"

definition all_constructed :: "rules \<Rightarrow> state \<Rightarrow> document \<Rightarrow> bool" where
  "all_constructed R st doc =
     (case streetnumbers doc of
        Inl e \<Rightarrow> False
      | Inr nums \<Rightarrow>
          (case get_prop (address doc) ''street'' of
             Inr (JStr s) \<Rightarrow> constructs_ok R doc (address_type doc) s nums 0 (idOrdinal st)
           | _ \<Rightarrow> False))"

subsection \<open>Two document models\<close>

text \<open>A model that accepts every value, and a strict one in the manner of
  \<open>pelias-model\<close>: identifiers and names must be non-empty (a name also after trimming),
  a centroid must be present and within range, the other values must be present and
  non-empty.\<close>

definition accept_all :: rules where
  "accept_all = \<lparr> ok_new = (\<lambda>src type ident. True), ok_name = (\<lambda>prop v. True),
     ok_centroid = (\<lambda>c. True), ok_source_id = (\<lambda>v. True), ok_address = (\<lambda>prop v. True),
     ok_alpha3 = (\<lambda>v. True), ok_admin = (\<lambda>level v. True) \<rparr>"

definition strict_rules :: rules where
  "strict_rules = \<lparr>
     ok_new = (\<lambda>src type ident. src \<noteq> [] \<and> type \<noteq> [] \<and> ident \<noteq> []),
     ok_name = (\<lambda>prop v. js_trim v \<noteq> []),
     ok_centroid = (\<lambda>c. case c of None \<Rightarrow> False
                       | Some (la, lo) \<Rightarrow> - 90 \<le> la \<and> la \<le> 90 \<and> - 180 \<le> lo \<and> lo \<le> 180),
     ok_source_id = (\<lambda>v. v \<noteq> None \<and> v \<noteq> Some []),
     ok_address = (\<lambda>prop v. ''string'' = typeof v \<and> truthy v),
     ok_alpha3 = (\<lambda>v. case v of None \<Rightarrow> False | Some s \<Rightarrow> length s = 3),
     ok_admin = (\<lambda>level v. v \<noteq> None \<and> v \<noteq> Some []) \<rparr>"

subsection \<open>Example documents\<close>

text \<open>As the document constructor leaves them (type \<open>venue\<close>, the source id being the
  id), with the name and address the tag mapper would add. \<open>stub\<close> has no name and no
  address, \<open>kiosk\<close> a name only, \<open>shed\<close> an address only and no centroid, \<open>cafe\<close> a name,
  a centroid and an address with two house numbers.\<close>

definition stub :: document where
  "stub = \<lparr> doc_id = ''way:3'', doc_type = ''venue'', source = ''osm'',
     source_id = Some ''way:3'', name = Map.empty, center_point = None, address = JObj [],
     alpha3 = None, admin = Map.empty, meta = Map.empty \<rparr>"

definition kiosk :: document where
  "kiosk = stub\<lparr> name := [''default'' \<mapsto> ''Kiosk''] \<rparr>"

definition shed :: document where
  "shed = stub\<lparr> address := JObj [(''number'', JStr ''12''), (''street'', JStr ''Main St'')] \<rparr>"

definition cafe :: document where
  "cafe = \<lparr> doc_id = ''node:7'', doc_type = ''venue'', source = ''osm'',
     source_id = Some ''node:7'', name = [''default'' \<mapsto> ''Cafe''],
     center_point = Some (1, 2),
     address = JObj [(''number'', JStr ''12; 14''), (''street'', JStr ''Main St'')],
     alpha3 = None, admin = Map.empty, meta = Map.empty \<rparr>"

text \<open>\<open>barn\<close> is \<open>shed\<close> with two house numbers; \<open>annex\<close> has a centroid, the house numbers
  \<open>1\<close> and the empty string, and a street of one space.\<close>

definition barn :: document where
  "barn = stub\<lparr> address := JObj [(''number'', JStr ''12;14''), (''street'', JStr ''Main St'')] \<rparr>"

definition annex :: document where
  "annex = stub\<lparr> center_point := Some (1, 2),
     address := JObj [(''number'', JStr ''1;''), (''street'', JStr '' '')] \<rparr>"



subsection \<open>Notions of the proofs\<close>


text \<open>The identifiers the loop builds, one for each house number.\<close>

fun ids_from :: "document \<Rightarrow> string \<Rightarrow> string list \<Rightarrow> nat \<Rightarrow> nat \<Rightarrow> string list" where
  "ids_from doc type [] i ord = []"
| "ids_from doc type (streetno # rest) i ord =
     new_id (doc_type doc) type (fst (id_base doc ord)) i streetno #
     ids_from doc type rest (Suc i) (snd (id_base doc ord))"

text \<open>The model accepts what the \<open>try\<close> block passes to it.\<close>

definition component_ok ::
  "rules \<Rightarrow> document \<Rightarrow> string \<Rightarrow> string \<Rightarrow> string \<Rightarrow> nat \<Rightarrow> nat \<Rightarrow> bool" where
  "component_ok R doc type street x i ord \<longleftrightarrow>
     ok_new R ''osm'' ''address'' (new_id (doc_type doc) type (fst (id_base doc ord)) i x) \<and>
     ok_name R ''default'' (x @ '' '' @ street) \<and>
     ok_centroid R (center_point doc) \<and> ok_source_id R (source_id doc)"

text \<open>What is observed of a pushed document, and the observations the loop pushes, the
  value of \<open>record\<close> being observed as \<open>cur\<close>.\<close>

definition obs :: "document \<Rightarrow> string \<times> string option" where
  "obs r = (doc_id r, name r ''default'')"

fun pushed_obs ::
  "rules \<Rightarrow> document \<Rightarrow> string \<Rightarrow> string \<Rightarrow> string list \<Rightarrow> nat \<Rightarrow> nat \<Rightarrow>
     (string \<times> string option) option \<Rightarrow> (string \<times> string option) list" where
  "pushed_obs R doc type street [] i ord cur = []"
| "pushed_obs R doc type street (x # xs) i ord cur =
     (if component_ok R doc type street x i ord
      then (new_id (doc_type doc) type (fst (id_base doc ord)) i x, Some (x @ '' '' @ street)) #
           pushed_obs R doc type street xs (Suc i) (snd (id_base doc ord))
             (Some (new_id (doc_type doc) type (fst (id_base doc ord)) i x,
                    Some (x @ '' '' @ street)))
      else (case cur of None \<Rightarrow> [] | Some p \<Rightarrow> [p]) @
           pushed_obs R doc type street xs (Suc i) (snd (id_base doc ord)) cur)"

text \<open>What the loop sends to the logger.\<close>

fun log_of ::
  "rules \<Rightarrow> document \<Rightarrow> string \<Rightarrow> string \<Rightarrow> string list \<Rightarrow> nat \<Rightarrow> nat \<Rightarrow> log_entry list" where
  "log_of R doc type street [] i ord = []"
| "log_of R doc type street (x # xs) i ord =
     (if component_ok R doc type street x i ord then []
      else [LogText ''address_extractor error'', LogStack ModelError, LogDoc doc]) @
     log_of R doc type street xs (Suc i) (snd (id_base doc ord))"

definition same_core :: "document \<Rightarrow> document \<Rightarrow> bool" where
  "same_core r' r \<longleftrightarrow>
     doc_id r' = doc_id r \<and> doc_type r' = doc_type r \<and> name r' = name r \<and>
     center_point r' = center_point r \<and> source_id r' = source_id r"

definition built_for ::
  "document \<Rightarrow> string \<Rightarrow> string \<Rightarrow> string \<Rightarrow> nat \<Rightarrow> nat \<Rightarrow> document \<Rightarrow> bool" where
  "built_for doc type street x i ord r \<longleftrightarrow>
     doc_id r = new_id (doc_type doc) type (fst (id_base doc ord)) i x \<and>
     doc_type r = ''address'' \<and>
     name r ''default'' = Some (x @ '' '' @ street) \<and>
     center_point r = center_point doc \<and> source_id r = source_id doc \<and>
     meta r = extend_meta doc r"

definition derived_ok :: "document \<Rightarrow> string set \<Rightarrow> string set \<Rightarrow> string \<Rightarrow> document \<Rightarrow> bool" where
  "derived_ok doc S N street r \<longleftrightarrow>
     doc_type r = ''address'' \<and> doc_id r \<in> S \<and>
     (\<exists>x\<in>N. name r ''default'' = Some (x @ '' '' @ street)) \<and>
     center_point r = center_point doc \<and> source_id r = source_id doc \<and>
     meta r = extend_meta doc r"

definition loop :: "rules \<Rightarrow> state \<Rightarrow> document \<Rightarrow> string \<Rightarrow> string \<Rightarrow> frame" where
  "loop R st doc number street =
     forEach_streetno R doc (address_type doc) street
       (map js_trim (js_split (CHR '';'') number)) 0
       \<lparr> fstate = st, frecord = None, pushed = [] \<rparr>"



section \<open>Lemmas\<close>

declare string_of_nat.simps [simp del]

lemma bind_Inr [simp]: "bind (Inr x) f = f x"
  by (simp add: bind_def)

lemma bind_Inl [simp]: "bind (Inl e) f = Inl e"
  by (simp add: bind_def)

lemma bind_eq_Inr: "bind m f = Inr y \<longleftrightarrow> (\<exists>x. m = Inr x \<and> f x = Inr y)"
  by (cases m) auto

lemma setAddress_keeps:
  "setAddress R p v r = Inr r' \<Longrightarrow>
     doc_id r' = doc_id r \<and> doc_type r' = doc_type r \<and> name r' = name r \<and>
     center_point r' = center_point r \<and> source_id r' = source_id r \<and> meta r' = meta r"
  by (auto simp: setAddress_def bind_eq_Inr split: if_splits)

lemma same_core_refl [simp]: "same_core r r"
  by (simp add: same_core_def)

lemma same_core_trans: "same_core a b \<Longrightarrow> same_core b c \<Longrightarrow> same_core a c"
  by (simp add: same_core_def)

lemma copy_address_core:
  "same_core (ignore_errors r (bind (getAddress doc p) (\<lambda>v. setAddress R p v r))) r"
proof (cases "getAddress doc p")
  case (Inl e)
  then show ?thesis by (simp add: ignore_errors_def)
next
  case (Inr v)
  then show ?thesis
    by (cases "setAddress R p v r")
       (auto simp: ignore_errors_def same_core_def dest: setAddress_keeps)
qed

lemma fold_core:
  assumes "\<And>x r. same_core (f x r) r"
  shows "same_core (fold f xs r) r"
proof (induction xs arbitrary: r)
  case Nil
  show ?case by simp
next
  case (Cons x xs)
  have "same_core (fold f xs (f x r)) (f x r)" by (rule Cons.IH)
  then show ?case using assms [of x r] by (auto intro: same_core_trans)
qed

lemma setAlpha3_core: "same_core (ignore_errors r (setAlpha3 R v r)) r"
  by (simp add: ignore_errors_def setAlpha3_def same_core_def)

lemma setAdmin_core: "same_core (ignore_errors r (setAdmin R l v r)) r"
  by (simp add: ignore_errors_def setAdmin_def same_core_def)

lemma setProperties_core: "same_core (setProperties R record doc) record"
  unfolding setProperties_def Let_def
  by (blast intro: same_core_trans fold_core copy_address_core setAlpha3_core setAdmin_core)

lemma try_block_ord: "fst (try_block R doc type street x i ord) = snd (id_base doc ord)"
  by (simp add: try_block_def split: prod.splits)

lemma try_block_Inr:
  assumes "snd (try_block R doc type street x i ord) = Inr r"
  shows "doc_id r = new_id (doc_type doc) type (fst (id_base doc ord)) i x \<and>
         doc_type r = ''address'' \<and>
         name r ''default'' = Some (x @ '' '' @ street) \<and>
         center_point r = center_point doc \<and> source_id r = source_id doc"
proof -
  let ?newid = "new_id (doc_type doc) type (fst (id_base doc ord)) i x"
  from assms obtain r1 r2 r3 r4 where
    r1: "new_Document R ''osm'' ''address'' ?newid = Inr r1" and
    r2: "setName R ''default'' (x @ '' '' @ street) r1 = Inr r2" and
    r3: "setCentroid R (center_point doc) r2 = Inr r3" and
    r4: "setSourceId R (source_id doc) r3 = Inr r4" and
    r: "r = setProperties R r4 doc"
    by (auto simp: try_block_def bind_eq_Inr split: prod.splits)
  from r1 have "doc_id r1 = ?newid \<and> doc_type r1 = ''address''"
    by (auto simp: new_Document_def split: if_splits)
  with r2 have "doc_id r2 = ?newid \<and> doc_type r2 = ''address'' \<and>
      name r2 ''default'' = Some (x @ '' '' @ street)"
    by (auto simp: setName_def split: if_splits)
  with r3 have "doc_id r3 = ?newid \<and> doc_type r3 = ''address'' \<and>
      name r3 ''default'' = Some (x @ '' '' @ street) \<and> center_point r3 = center_point doc"
    by (auto simp: setCentroid_def split: if_splits)
  with r4 have "doc_id r4 = ?newid \<and> doc_type r4 = ''address'' \<and>
      name r4 ''default'' = Some (x @ '' '' @ street) \<and> center_point r4 = center_point doc \<and>
      source_id r4 = source_id doc"
    by (auto simp: setSourceId_def split: if_splits)
  moreover have "same_core r r4"
    unfolding r by (rule setProperties_core)
  ultimately show ?thesis
    by (simp add: same_core_def)
qed

lemma each_streetno_ok:
  assumes "snd (try_block R doc type street x i (idOrdinal (fstate fr))) = Inr r"
  shows "\<exists>r'. each_streetno R doc type street x i fr =
           \<lparr> fstate = (fstate fr)\<lparr> idOrdinal := snd (id_base doc (idOrdinal (fstate fr))) \<rparr>,
             frecord = Some r', pushed = pushed fr @ [r'] \<rparr> \<and>
           built_for doc type street x i (idOrdinal (fstate fr)) r'"
proof -
  have o: "fst (try_block R doc type street x i (idOrdinal (fstate fr))) =
      snd (id_base doc (idOrdinal (fstate fr)))"
    by (rule try_block_ord)
  obtain ord' res where t: "try_block R doc type street x i (idOrdinal (fstate fr)) = (ord', res)"
    by (cases "try_block R doc type street x i (idOrdinal (fstate fr))")
  with assms o have res: "res = Inr r" and ord': "ord' = snd (id_base doc (idOrdinal (fstate fr)))"
    by simp_all
  have b: "built_for doc type street x i (idOrdinal (fstate fr)) (r\<lparr> meta := extend_meta doc r \<rparr>)"
    using try_block_Inr [OF assms] by (simp add: built_for_def extend_meta_def)
  show ?thesis
    using b by (simp add: each_streetno_def t res ord' Let_def)
qed

lemma each_streetno_fail:
  assumes "snd (try_block R doc type street x i (idOrdinal (fstate fr))) = Inl e"
  shows "each_streetno R doc type street x i fr =
           \<lparr> fstate = (fstate fr)\<lparr> idOrdinal := snd (id_base doc (idOrdinal (fstate fr))),
                 logged := logged (fstate fr) @
                   [LogText ''address_extractor error'', LogStack e, LogDoc doc] \<rparr>,
             frecord = map_option (\<lambda>r. r\<lparr> meta := extend_meta doc r \<rparr>) (frecord fr),
             pushed = pushed fr @
               (case frecord fr of None \<Rightarrow> [] | Some r \<Rightarrow> [r\<lparr> meta := extend_meta doc r \<rparr>]) \<rparr>"
proof -
  have o: "fst (try_block R doc type street x i (idOrdinal (fstate fr))) =
      snd (id_base doc (idOrdinal (fstate fr)))"
    by (rule try_block_ord)
  obtain ord' res where t: "try_block R doc type street x i (idOrdinal (fstate fr)) = (ord', res)"
    by (cases "try_block R doc type street x i (idOrdinal (fstate fr))")
  with assms o have res: "res = Inl e" and ord': "ord' = snd (id_base doc (idOrdinal (fstate fr)))"
    by simp_all
  show ?thesis
    by (cases "frecord fr") (simp_all add: each_streetno_def t res ord' Let_def)
qed

lemma each_streetno_ord:
  "idOrdinal (fstate (each_streetno R doc type street x i fr)) =
     snd (id_base doc (idOrdinal (fstate fr)))"
proof (cases "snd (try_block R doc type street x i (idOrdinal (fstate fr)))")
  case (Inl e)
  show ?thesis by (simp add: each_streetno_fail [OF Inl])
next
  case (Inr r)
  from each_streetno_ok [OF Inr] show ?thesis by auto
qed

lemma derived_ok_meta:
  "derived_ok doc S N street r \<Longrightarrow> r\<lparr> meta := extend_meta doc r \<rparr> = r"
  by (simp add: derived_ok_def)

lemma built_for_derived_ok:
  "built_for doc type street x i ord r \<Longrightarrow>
   new_id (doc_type doc) type (fst (id_base doc ord)) i x \<in> S \<Longrightarrow> x \<in> N \<Longrightarrow>
   derived_ok doc S N street r"
  by (auto simp: built_for_def derived_ok_def)

lemma each_streetno_inv:
  assumes S: "new_id (doc_type doc) type (fst (id_base doc (idOrdinal (fstate fr)))) i x \<in> S"
    and N: "x \<in> N"
    and rec: "\<forall>r. frecord fr = Some r \<longrightarrow> derived_ok doc S N street r"
    and pu: "\<forall>r\<in>set (pushed fr). derived_ok doc S N street r"
  shows "(\<forall>r. frecord (each_streetno R doc type street x i fr) = Some r \<longrightarrow> derived_ok doc S N street r) \<and>
         (\<forall>r\<in>set (pushed (each_streetno R doc type street x i fr)). derived_ok doc S N street r)"
proof (cases "snd (try_block R doc type street x i (idOrdinal (fstate fr)))")
  case (Inl e)
  show ?thesis
    using rec pu
    by (cases "frecord fr") (auto simp: each_streetno_fail [OF Inl] derived_ok_meta)
next
  case (Inr r)
  from each_streetno_ok [OF Inr] obtain r' where
    e: "each_streetno R doc type street x i fr =
           \<lparr> fstate = (fstate fr)\<lparr> idOrdinal := snd (id_base doc (idOrdinal (fstate fr))) \<rparr>,
             frecord = Some r', pushed = pushed fr @ [r'] \<rparr>"
    and b: "built_for doc type street x i (idOrdinal (fstate fr)) r'"
    by blast
  have "derived_ok doc S N street r'"
    using b S N by (rule built_for_derived_ok)
  then show ?thesis using pu by (auto simp: e)
qed

lemma forEach_inv:
  assumes "set (ids_from doc type nums i (idOrdinal (fstate fr))) \<subseteq> S"
    and "set nums \<subseteq> N"
    and "\<forall>r. frecord fr = Some r \<longrightarrow> derived_ok doc S N street r"
    and "\<forall>r\<in>set (pushed fr). derived_ok doc S N street r"
  shows "\<forall>r\<in>set (pushed (forEach_streetno R doc type street nums i fr)). derived_ok doc S N street r"
  using assms
proof (induction nums arbitrary: i fr)
  case Nil
  then show ?case by simp
next
  case (Cons x xs)
  let ?fr = "each_streetno R doc type street x i fr"
  have inv: "(\<forall>r. frecord ?fr = Some r \<longrightarrow> derived_ok doc S N street r) \<and>
         (\<forall>r\<in>set (pushed ?fr). derived_ok doc S N street r)"
    using Cons.prems by (intro each_streetno_inv) auto
  have "set (ids_from doc type xs (Suc i) (idOrdinal (fstate ?fr))) \<subseteq> S"
    using Cons.prems(1) by (simp add: each_streetno_ord)
  moreover have "set xs \<subseteq> N" using Cons.prems(2) by simp
  ultimately have "\<forall>r\<in>set (pushed (forEach_streetno R doc type street xs (Suc i) ?fr)).
      derived_ok doc S N street r"
    using inv by (intro Cons.IH) auto
  then show ?case by simp
qed

lemma forEach_all_ok:
  assumes "constructs_ok R doc type street nums i (idOrdinal (fstate fr))"
  shows "\<exists>rs. pushed (forEach_streetno R doc type street nums i fr) = pushed fr @ rs \<and>
           map doc_id rs = ids_from doc type nums i (idOrdinal (fstate fr)) \<and>
           map (\<lambda>r. name r ''default'') rs = map (\<lambda>x. Some (x @ '' '' @ street)) nums"
  using assms
proof (induction nums arbitrary: i fr)
  case Nil
  then show ?case by simp
next
  case (Cons x xs)
  let ?ord = "idOrdinal (fstate fr)"
  let ?fr = "each_streetno R doc type street x i fr"
  obtain ord' res where t: "try_block R doc type street x i ?ord = (ord', res)"
    by (cases "try_block R doc type street x i ?ord")
  with Cons.prems obtain r where res: "res = Inr r"
    and rest: "constructs_ok R doc type street xs (Suc i) ord'"
    by (cases res) auto
  have ord': "ord' = snd (id_base doc ?ord)"
    using try_block_ord [of R doc type street x i ?ord] t by simp
  have "snd (try_block R doc type street x i ?ord) = Inr r"
    using t res by simp
  from each_streetno_ok [OF this] obtain r' where
    e: "?fr = \<lparr> fstate = (fstate fr)\<lparr> idOrdinal := snd (id_base doc ?ord) \<rparr>,
             frecord = Some r', pushed = pushed fr @ [r'] \<rparr>"
    and b: "built_for doc type street x i ?ord r'"
    by blast
  have "constructs_ok R doc type street xs (Suc i) (idOrdinal (fstate ?fr))"
    using rest ord' by (simp add: e)
  from Cons.IH [OF this] obtain rs where
    rs: "pushed (forEach_streetno R doc type street xs (Suc i) ?fr) = pushed ?fr @ rs"
      "map doc_id rs = ids_from doc type xs (Suc i) (idOrdinal (fstate ?fr))"
      "map (\<lambda>r. name r ''default'') rs = map (\<lambda>x. Some (x @ '' '' @ street)) xs"
    by blast
  have "pushed (forEach_streetno R doc type street (x # xs) i fr) = pushed fr @ (r' # rs)"
    using rs(1) by (simp add: e)
  moreover have "map doc_id (r' # rs) = ids_from doc type (x # xs) i ?ord"
    using rs(2) b by (simp add: e built_for_def)
  moreover have "map (\<lambda>r. name r ''default'') (r' # rs) =
      map (\<lambda>x. Some (x @ '' '' @ street)) (x # xs)"
    using rs(3) b by (simp add: built_for_def)
  ultimately show ?case by blast
qed

lemma new_id_eq:
  "new_id dt ty base i x =
     ''osm-'' @ dt @ ''-'' @ ty @ ''-'' @ base @ (if i > 0 then ''-'' @ x else [])"
  by (simp add: new_id_def)





lemma try_block_ok:
  "component_ok R doc type street x i ord \<Longrightarrow>
     \<exists>r. snd (try_block R doc type street x i ord) = Inr r"
  by (cases "id_base doc ord")
     (simp add: component_ok_def try_block_def new_Document_def setName_def setCentroid_def
      setSourceId_def Let_def)

lemma try_block_fail:
  "\<not> component_ok R doc type street x i ord \<Longrightarrow>
     snd (try_block R doc type street x i ord) = Inl ModelError"
  by (cases "id_base doc ord")
     (auto simp: component_ok_def try_block_def new_Document_def setName_def setCentroid_def
      setSourceId_def Let_def)

lemma constructs_ok_Cons:
  "constructs_ok R doc type street (x # xs) i ord \<longleftrightarrow>
     component_ok R doc type street x i ord \<and>
     constructs_ok R doc type street xs (Suc i) (snd (id_base doc ord))"
proof (cases "component_ok R doc type street x i ord")
  case True
  from try_block_ok [OF True] obtain r where
    "snd (try_block R doc type street x i ord) = Inr r" ..
  moreover have "fst (try_block R doc type street x i ord) = snd (id_base doc ord)"
    by (rule try_block_ord)
  ultimately have "try_block R doc type street x i ord = (snd (id_base doc ord), Inr r)"
    by (metis prod.collapse)
  with True show ?thesis by simp
next
  case False
  obtain ord' res where t: "try_block R doc type street x i ord = (ord', res)"
    by (cases "try_block R doc type street x i ord")
  with try_block_fail [OF False] have "res = Inl ModelError" by simp
  with False t show ?thesis by simp
qed

declare constructs_ok.simps(2) [simp del]

declare constructs_ok_Cons [simp]




lemma typeof_string_iff: "''string'' = typeof v \<longleftrightarrow> (\<exists>s. v = JStr s)"
  by (cases v) auto

lemma hasValidAddress_char:
  "hasValidAddress doc =
     Inr (\<exists>a n s. get_prop doc ''address'' = Inr a \<and>
            get_prop a ''number'' = Inr (JStr n) \<and> n \<noteq> [] \<and>
            get_prop a ''street'' = Inr (JStr s) \<and> s \<noteq> [])"
proof (cases doc)
  case (JObj kvs)
  show ?thesis
  proof (cases "case map_of kvs ''address'' of None \<Rightarrow> JUndefined | Some v \<Rightarrow> v")
    case (JObj akvs)
    then show ?thesis using \<open>doc = JObj kvs\<close>
      by (auto simp: hasValidAddress_def isObject_def typeof_string_iff)
  qed (use JObj in \<open>auto simp: hasValidAddress_def isObject_def\<close>)
qed (auto simp: hasValidAddress_def isObject_def)

lemma valid_document:
  "hasValidAddress (js_of_document doc) =
     Inr (\<exists>number street. get_prop (address doc) ''number'' = Inr (JStr number) \<and> number \<noteq> [] \<and>
            get_prop (address doc) ''street'' = Inr (JStr street) \<and> street \<noteq> [])"
  by (simp add: hasValidAddress_char js_of_document_def)

lemma streetnumbers_eq:
  "get_prop (address doc) ''number'' = Inr (JStr number) \<Longrightarrow>
   streetnumbers doc = Inr (map js_trim (js_split (CHR '';'') number))"
  by (simp add: streetnumbers_def)

lemma address_records_eq:
  assumes "get_prop (address doc) ''number'' = Inr (JStr number)"
    and "get_prop (address doc) ''street'' = Inr (JStr street)"
  shows "address_records R st doc =
     Inr (fstate (loop R st doc number street), pushed (loop R st doc number street))"
  using assms
  by (simp add: address_records_def streetnumbers_eq loop_def Let_def)

lemma transform_valid:
  assumes "get_prop (address doc) ''number'' = Inr (JStr number)" "number \<noteq> []"
    and "get_prop (address doc) ''street'' = Inr (JStr street)" "street \<noteq> []"
  shows "transform R st doc =
     Inr (fstate (loop R st doc number street),
          pushed (loop R st doc number street) @ (if isNamedPoi doc then [doc] else []))"
proof -
  have "hasValidAddress (js_of_document doc) = Inr True"
    using assms by (simp add: valid_document)
  then show ?thesis
    by (simp add: transform_def address_records_eq [OF assms(1,3)])
qed

lemma transform_invalid:
  assumes "hasValidAddress (js_of_document doc) = Inr False"
  shows "transform R st doc = Inr (st, if isNamedPoi doc then [doc] else [])"
  using assms by (simp add: transform_def)

lemma derived_append [simp]:
  "derived doc (recs @ (if isNamedPoi doc then [doc] else [])) = recs"
  by (simp add: derived_def)

lemma derived_invalid [simp]: "derived doc (if isNamedPoi doc then [doc] else []) = []"
  by (simp add: derived_def)

lemma transform_cases:
  obtains (invalid) "hasValidAddress (js_of_document doc) = Inr False"
      "transform R st doc = Inr (st, if isNamedPoi doc then [doc] else [])"
  | (valid) number street where "hasValidAddress (js_of_document doc) = Inr True"
      "get_prop (address doc) ''number'' = Inr (JStr number)" "number \<noteq> []"
      "get_prop (address doc) ''street'' = Inr (JStr street)" "street \<noteq> []"
      "transform R st doc =
         Inr (fstate (loop R st doc number street),
              pushed (loop R st doc number street) @ (if isNamedPoi doc then [doc] else []))"
proof (cases "\<exists>number street. get_prop (address doc) ''number'' = Inr (JStr number) \<and> number \<noteq> [] \<and>
            get_prop (address doc) ''street'' = Inr (JStr street) \<and> street \<noteq> []")
  case True
  then obtain number street where
    *: "get_prop (address doc) ''number'' = Inr (JStr number)" "number \<noteq> []"
      "get_prop (address doc) ''street'' = Inr (JStr street)" "street \<noteq> []"
    by blast
  moreover from True have "hasValidAddress (js_of_document doc) = Inr True"
    by (simp add: valid_document)
  ultimately show ?thesis
    using transform_valid [OF *] by (intro valid)
next
  case False
  then have v: "hasValidAddress (js_of_document doc) = Inr False"
    by (simp add: valid_document)
  then show ?thesis
    using transform_invalid [OF v] by (intro invalid)
qed

lemma transform_total: "\<exists>st' out. transform R st doc = Inr (st', out)"
  by (rule transform_cases [of doc R st]) simp_all

lemma loop_inv:
  "\<forall>r\<in>set (pushed (loop R st doc number street)).
     derived_ok doc (set (ids_from doc (address_type doc)
                   (map js_trim (js_split (CHR '';'') number)) 0 (idOrdinal st)))
       (set (map js_trim (js_split (CHR '';'') number))) street r"
  unfolding loop_def by (rule forEach_inv) simp_all

lemma loop_all_ok:
  assumes "constructs_ok R doc (address_type doc) street
     (map js_trim (js_split (CHR '';'') number)) 0 (idOrdinal st)"
  shows "map doc_id (pushed (loop R st doc number street)) =
           ids_from doc (address_type doc) (map js_trim (js_split (CHR '';'') number)) 0
             (idOrdinal st) \<and>
         map (\<lambda>r. name r ''default'') (pushed (loop R st doc number street)) =
           map (\<lambda>x. Some (x @ '' '' @ street)) (map js_trim (js_split (CHR '';'') number))"
proof -
  let ?fr = "\<lparr> fstate = st, frecord = None, pushed = [] \<rparr>"
  have "constructs_ok R doc (address_type doc) street
     (map js_trim (js_split (CHR '';'') number)) 0 (idOrdinal (fstate ?fr))"
    using assms by simp
  from forEach_all_ok [OF this] show ?thesis
    by (auto simp: loop_def)
qed

lemma all_constructed_eq:
  assumes "get_prop (address doc) ''number'' = Inr (JStr number)"
    and "get_prop (address doc) ''street'' = Inr (JStr street)"
  shows "all_constructed R st doc \<longleftrightarrow>
     constructs_ok R doc (address_type doc) street
       (map js_trim (js_split (CHR '';'') number)) 0 (idOrdinal st)"
  using assms by (simp add: all_constructed_def streetnumbers_eq)

lemma run_total: "\<exists>st' outs. run R st docs = Inr (st', outs)"
proof (induction docs arbitrary: st)
  case Nil
  show ?case by simp
next
  case (Cons d ds)
  obtain s1 out where "transform R st d = Inr (s1, out)"
    using transform_total by blast
  moreover obtain s2 outs where "run R s1 ds = Inr (s2, outs)"
    using Cons.IH by blast
  ultimately show ?case by simp
qed

lemma obs_meta [simp]: "obs (r\<lparr> meta := m \<rparr>) = obs r"
  by (simp add: obs_def)

lemma built_for_obs:
  "built_for doc type street x i ord r \<Longrightarrow>
   obs r = (new_id (doc_type doc) type (fst (id_base doc ord)) i x, Some (x @ '' '' @ street))"
  by (simp add: built_for_def obs_def)

lemma each_streetno_obs:
  "map obs (pushed (each_streetno R doc type street x i fr)) =
     map obs (pushed fr) @
     (if component_ok R doc type street x i (idOrdinal (fstate fr))
      then [(new_id (doc_type doc) type (fst (id_base doc (idOrdinal (fstate fr)))) i x,
             Some (x @ '' '' @ street))]
      else (case map_option obs (frecord fr) of None \<Rightarrow> [] | Some p \<Rightarrow> [p])) \<and>
   map_option obs (frecord (each_streetno R doc type street x i fr)) =
     (if component_ok R doc type street x i (idOrdinal (fstate fr))
      then Some (new_id (doc_type doc) type (fst (id_base doc (idOrdinal (fstate fr)))) i x,
                 Some (x @ '' '' @ street))
      else map_option obs (frecord fr))"
proof (cases "component_ok R doc type street x i (idOrdinal (fstate fr))")
  case True
  from try_block_ok [OF True] obtain r where
    "snd (try_block R doc type street x i (idOrdinal (fstate fr))) = Inr r" ..
  from each_streetno_ok [OF this] obtain r' where
    "each_streetno R doc type street x i fr =
       \<lparr> fstate = (fstate fr)\<lparr> idOrdinal := snd (id_base doc (idOrdinal (fstate fr))) \<rparr>,
         frecord = Some r', pushed = pushed fr @ [r'] \<rparr>"
    "built_for doc type street x i (idOrdinal (fstate fr)) r'"
    by blast
  with True show ?thesis by (simp add: built_for_obs)
next
  case False
  have "snd (try_block R doc type street x i (idOrdinal (fstate fr))) = Inl ModelError"
    using False by (rule try_block_fail)
  from each_streetno_fail [OF this] False show ?thesis
    by (cases "frecord fr") simp_all
qed

lemma forEach_obs:
  "map obs (pushed (forEach_streetno R doc type street nums i fr)) =
     map obs (pushed fr) @
     pushed_obs R doc type street nums i (idOrdinal (fstate fr)) (map_option obs (frecord fr))"
proof (induction nums arbitrary: i fr)
  case Nil
  show ?case by simp
next
  case (Cons x xs)
  show ?case
    using each_streetno_obs [of R doc type street x i fr]
    by (simp add: Cons.IH each_streetno_ord)
qed

lemma loop_obs:
  "map obs (pushed (loop R st doc number street)) =
     pushed_obs R doc (address_type doc) street
       (map js_trim (js_split (CHR '';'') number)) 0 (idOrdinal st) None"
  by (simp add: loop_def forEach_obs)

lemma emitted_valid:
  assumes "get_prop (address doc) ''number'' = Inr (JStr number)" "number \<noteq> []"
    and "get_prop (address doc) ''street'' = Inr (JStr street)" "street \<noteq> []"
  shows "emitted R st doc =
     Inr (pushed (loop R st doc number street) @ (if isNamedPoi doc then [doc] else []))"
  by (simp add: emitted_def transform_valid [OF assms])

lemma emitted_invalid:
  assumes "hasValidAddress (js_of_document doc) = Inr False"
  shows "emitted R st doc = Inr (if isNamedPoi doc then [doc] else [])"
  by (simp add: emitted_def transform_invalid [OF assms])

lemma each_streetno_logged:
  "logged (fstate (each_streetno R doc type street x i fr)) =
     logged (fstate fr) @
     (if component_ok R doc type street x i (idOrdinal (fstate fr)) then []
      else [LogText ''address_extractor error'', LogStack ModelError, LogDoc doc])"
proof (cases "component_ok R doc type street x i (idOrdinal (fstate fr))")
  case True
  from try_block_ok [OF True] obtain r where
    "snd (try_block R doc type street x i (idOrdinal (fstate fr))) = Inr r" ..
  from each_streetno_ok [OF this] True show ?thesis by auto
next
  case False
  have "snd (try_block R doc type street x i (idOrdinal (fstate fr))) = Inl ModelError"
    using False by (rule try_block_fail)
  from each_streetno_fail [OF this] False show ?thesis by simp
qed

lemma forEach_logged:
  "logged (fstate (forEach_streetno R doc type street nums i fr)) =
     logged (fstate fr) @ log_of R doc type street nums i (idOrdinal (fstate fr))"
  by (induction nums arbitrary: i fr) (simp_all add: each_streetno_logged each_streetno_ord)

lemma address_log_eq:
  assumes "get_prop (address doc) ''number'' = Inr (JStr number)"
    and "get_prop (address doc) ''street'' = Inr (JStr street)"
  shows "address_log R st doc =
     Inr (logged st @ log_of R doc (address_type doc) street
            (map js_trim (js_split (CHR '';'') number)) 0 (idOrdinal st))"
  by (simp add: address_log_def address_records_eq [OF assms] loop_def forEach_logged)


lemma address_documents_eq:
  assumes "get_prop (address doc) ''number'' = Inr (JStr number)"
    and "get_prop (address doc) ''street'' = Inr (JStr street)"
  shows "address_documents R st doc = Inr (pushed (loop R st doc number street))"
  by (simp add: address_documents_def address_records_eq [OF assms])

lemma valid_documentD:
  assumes "hasValidAddress (js_of_document doc) = Inr True"
  obtains number street where
    "get_prop (address doc) ''number'' = Inr (JStr number)" "number \<noteq> []"
    "get_prop (address doc) ''street'' = Inr (JStr street)" "street \<noteq> []"
  using assms unfolding valid_document by auto

lemma all_constructed_loop:
  assumes "get_prop (address doc) ''number'' = Inr (JStr number)"
    and "get_prop (address doc) ''street'' = Inr (JStr street)"
    and "all_constructed R st doc"
  shows "map doc_id (pushed (loop R st doc number street)) =
           ids_from doc (address_type doc) (map js_trim (js_split (CHR '';'') number)) 0
             (idOrdinal st)"
    and "map (\<lambda>r. name r ''default'') (pushed (loop R st doc number street)) =
           map (\<lambda>x. Some (x @ '' '' @ street)) (map js_trim (js_split (CHR '';'') number))"
    and "length (pushed (loop R st doc number street)) = length (js_split (CHR '';'') number)"
proof -
  have ok: "constructs_ok R doc (address_type doc) street
      (map js_trim (js_split (CHR '';'') number)) 0 (idOrdinal st)"
    using assms by (simp add: all_constructed_eq)
  from loop_all_ok [OF ok] show
    n: "map (\<lambda>r. name r ''default'') (pushed (loop R st doc number street)) =
           map (\<lambda>x. Some (x @ '' '' @ street)) (map js_trim (js_split (CHR '';'') number))"
    and "map doc_id (pushed (loop R st doc number street)) =
           ids_from doc (address_type doc) (map js_trim (js_split (CHR '';'') number)) 0
             (idOrdinal st)"
    by simp_all
  have "length (map (\<lambda>r. name r ''default'') (pushed (loop R st doc number street))) =
      length (js_split (CHR '';'') number)"
    unfolding n by simp
  then show "length (pushed (loop R st doc number street)) = length (js_split (CHR '';'') number)"
    by simp
qed

subsection \<open>The example documents\<close>

lemma init_state_simps [simp]: "idOrdinal init_state = 0" "logged init_state = []"
  by (simp_all add: init_state_def)

lemma stub_facts:
  "hasValidAddress (js_of_document stub) = Inr False" "\<not> isNamedPoi stub"
  by (simp_all add: hasValidAddress_def js_of_document_def stub_def isObject_def
      isNamedPoi_def getName_def)

lemma kiosk_facts:
  "hasValidAddress (js_of_document kiosk) = Inr False" "isNamedPoi kiosk"
  by (simp_all add: hasValidAddress_def js_of_document_def kiosk_def stub_def isObject_def
      isNamedPoi_def getName_def)

lemma shed_facts:
  "hasValidAddress (js_of_document shed) = Inr True" "\<not> isNamedPoi shed"
  "get_prop (address shed) ''number'' = Inr (JStr ''12'')"
  "get_prop (address shed) ''street'' = Inr (JStr ''Main St'')"
  "address_type shed = ''address''"
  "center_point shed = None" "source_id shed = Some ''way:3''" "doc_type shed = ''venue''"
  by (simp_all add: hasValidAddress_def js_of_document_def shed_def stub_def isObject_def
      isNamedPoi_def getName_def address_type_def)

lemma cafe_facts:
  "hasValidAddress (js_of_document cafe) = Inr True" "isNamedPoi cafe"
  "get_prop (address cafe) ''number'' = Inr (JStr ''12; 14'')"
  "get_prop (address cafe) ''street'' = Inr (JStr ''Main St'')"
  "address_type cafe = ''poi-address''"
  "center_point cafe = Some (1, 2)" "source_id cafe = Some ''node:7''"
  "doc_type cafe = ''venue''" "doc_id cafe = ''node:7''"
  by (simp_all add: hasValidAddress_def js_of_document_def cafe_def isObject_def
      isNamedPoi_def getName_def address_type_def)

lemma example_trims [simp]:
  "js_trim ''12'' = ''12''" "js_trim '' 14'' = ''14''" "js_trim ''14'' = ''14''"
  "js_trim ''1'' = ''1''" "js_trim [] = []"
  "js_trim ''12 Main St'' = ''12 Main St''" "js_trim ''14 Main St'' = ''14 Main St''"
  "js_trim ''1  '' = ''1''" "js_trim ''  '' = []"
  by (simp_all add: js_trim_def is_whitespace_def)

lemma barn_facts:
  "hasValidAddress (js_of_document barn) = Inr True" "\<not> isNamedPoi barn"
  "get_prop (address barn) ''number'' = Inr (JStr ''12;14'')"
  "get_prop (address barn) ''street'' = Inr (JStr ''Main St'')"
  "address_type barn = ''address''"
  "center_point barn = None" "source_id barn = Some ''way:3''" "doc_type barn = ''venue''"
  by (simp_all add: hasValidAddress_def js_of_document_def barn_def stub_def isObject_def
      isNamedPoi_def getName_def address_type_def)

lemma annex_facts:
  "hasValidAddress (js_of_document annex) = Inr True" "\<not> isNamedPoi annex"
  "get_prop (address annex) ''number'' = Inr (JStr ''1;'')"
  "get_prop (address annex) ''street'' = Inr (JStr '' '')"
  "address_type annex = ''address''"
  "center_point annex = Some (1, 2)" "source_id annex = Some ''way:3''"
  "doc_type annex = ''venue''"
  by (simp_all add: hasValidAddress_def js_of_document_def annex_def stub_def isObject_def
      isNamedPoi_def getName_def address_type_def)

lemma strict_cafe:
  "component_ok strict_rules cafe ''poi-address'' ''Main St'' ''12'' 0 0"
  "component_ok strict_rules cafe ''poi-address'' ''Main St'' ''14'' (Suc 0) 0"
  "id_base cafe 0 = (''node:7'', 0)"
  by (simp_all add: component_ok_def strict_rules_def cafe_facts id_base_def new_id_def)

lemma strict_cafe_constructed: "all_constructed strict_rules init_state cafe"
  by (simp add: all_constructed_eq [of cafe "''12; 14''" "''Main St''"] cafe_facts
      strict_cafe)

lemma accept_all_ok [simp]: "component_ok accept_all doc type street x i ord"
  by (simp add: component_ok_def accept_all_def)

lemma accept_all_constructs [simp]: "constructs_ok accept_all doc type street nums i ord"
  by (induction nums arbitrary: i ord) simp_all

subsection \<open>What every pushed address document looks like\<close>

lemma ids_from_shape:
  "s \<in> set (ids_from doc ty nums i ord) \<Longrightarrow>
     \<exists>rest. s = ''osm-'' @ doc_type doc @ ''-'' @ ty @ ''-'' @ rest"
proof (induction nums arbitrary: i ord)
  case Nil
  then show ?case by simp
next
  case (Cons x xs)
  then show ?case by (auto simp: new_id_eq)
qed

lemma loop_shape:
  assumes "r \<in> set (pushed (loop R st doc number street))"
  shows "doc_type r = ''address'' \<and> meta r ''type'' = Some (JStr ''address'') \<and>
         (\<exists>rest. doc_id r = ''osm-'' @ doc_type doc @ ''-'' @ address_type doc @ ''-'' @ rest) \<and>
         (\<exists>x\<in>set (map js_trim (js_split (CHR '';'') number)).
            name r ''default'' = Some (x @ '' '' @ street))"
proof -
  let ?S = "set (ids_from doc (address_type doc)
      (map js_trim (js_split (CHR '';'') number)) 0 (idOrdinal st))"
  from loop_inv assms have d: "derived_ok doc ?S
      (set (map js_trim (js_split (CHR '';'') number))) street r"
    by blast
  then have "doc_id r \<in> ?S" by (simp add: derived_ok_def)
  then have "\<exists>rest. doc_id r = ''osm-'' @ doc_type doc @ ''-'' @ address_type doc @ ''-'' @ rest"
    by (rule ids_from_shape)
  moreover have "meta r ''type'' = Some (JStr ''address'')"
  proof -
    from d have "meta r = extend_meta doc r" "doc_type r = ''address''"
      by (simp_all add: derived_ok_def)
    then have "meta r ''type'' = extend_meta doc r ''type''" by simp
    then show ?thesis using \<open>doc_type r = ''address''\<close> by (simp add: extend_meta_def)
  qed
  ultimately show ?thesis using d by (simp add: derived_ok_def)
qed

lemma emitted_derived:
  "\<exists>out. emitted R st doc = Inr out \<and>
     (derived doc out = [] \<or>
      (\<exists>number street. get_prop (address doc) ''number'' = Inr (JStr number) \<and>
         get_prop (address doc) ''street'' = Inr (JStr street) \<and>
         derived doc out = pushed (loop R st doc number street)))"
proof (rule transform_cases [of doc R st])
  assume "hasValidAddress (js_of_document doc) = Inr False"
  then show ?thesis by (simp add: emitted_invalid)
next
  fix number street
  assume "get_prop (address doc) ''number'' = Inr (JStr number)" "number \<noteq> []"
      "get_prop (address doc) ''street'' = Inr (JStr street)" "street \<noteq> []"
  from emitted_valid [OF this, of R st] this(1,3) show ?thesis
    by auto
qed

lemma map_all_same: "\<forall>x\<in>set xs. f x = a \<Longrightarrow> map f xs = replicate (length xs) a"
  by (induction xs) simp_all

lemma map_two_same:
  "length xs = 2 \<Longrightarrow> \<forall>x\<in>set xs. f x = a \<Longrightarrow> map f xs = [a, a]"
  using map_all_same [of xs f a] by (simp add: numeral_2_eq_2)

lemma map_one_same:
  "length xs = 1 \<Longrightarrow> \<forall>x\<in>set xs. f x = a \<Longrightarrow> map f xs = [a]"
  using map_all_same [of xs f a] by simp

lemma map_obs_Nil: "map obs rs = [] \<Longrightarrow> rs = []"
  by simp

subsection \<open>Identifiers\<close>











section \<open>The claims\<close>

subsection \<open>hasValidAddress\<close>

text \<open>
  Claim C8. For every value \<open>doc\<close>, \<open>hasValidAddress(doc)\<close> returns, and returns true if and
  only if \<open>doc.address\<close> exists, \<open>doc.address.number\<close> is a non-empty string and
  \<open>doc.address.street\<close> is a non-empty string; for every other shape (no address, a number
  or street that is not a string, an empty string) it returns false.
\<close>

theorem hasValidAddress_iff:
  "hasValidAddress doc =
     Inr (\<exists>a number street.
            get_prop doc ''address'' = Inr a \<and>
            get_prop a ''number'' = Inr (JStr number) \<and> number \<noteq> [] \<and>
            get_prop a ''street'' = Inr (JStr street) \<and> street \<noteq> [])"
  by (rule hasValidAddress_char)

text \<open>
  Claim C10. \<open>hasValidAddress\<close> is total: on an argument that is not an object, and on an
  object whose \<open>address\<close> is not an object, it returns false; on no argument does it throw.
\<close>

theorem hasValidAddress_total:
  "(\<not> isObject doc \<longrightarrow> hasValidAddress doc = Inr False) \<and>
   (isObject doc \<longrightarrow>
      (\<forall>a. get_prop doc ''address'' = Inr a \<longrightarrow> \<not> isObject a \<longrightarrow>
         hasValidAddress doc = Inr False)) \<and>
   (\<exists>b. hasValidAddress doc = Inr b)"
proof -
  have "\<exists>b. hasValidAddress doc = Inr b"
    using hasValidAddress_char [of doc] by blast
  then show ?thesis
    by (auto simp: hasValidAddress_def)
qed

theorem hasValidAddress_total_witness:
  "\<not> isObject (JNum 5) \<and> hasValidAddress (JNum 5) = Inr False \<and>
   \<not> isObject JUndefined \<and> hasValidAddress JUndefined = Inr False \<and>
   isObject (JObj [(''address'', JStr ''12 Main St'')]) \<and>
   get_prop (JObj [(''address'', JStr ''12 Main St'')]) ''address'' = Inr (JStr ''12 Main St'') \<and>
   \<not> isObject (JStr ''12 Main St'') \<and>
   hasValidAddress (JObj [(''address'', JStr ''12 Main St'')]) = Inr False"
  using hasValidAddress_total [of "JNum 5"] hasValidAddress_total [of JUndefined]
    hasValidAddress_total [of "JObj [(''address'', JStr ''12 Main St'')]"]
  by (simp add: isObject_def)

subsection \<open>How many documents the address extractor emits\<close>

text \<open>
  Claim C1, as stated, fails: it promises one address document for each house number of
  every document with a valid address. \<open>shed\<close> has a valid address with the one house
  number 12 and no centroid; the strict model rejects the absent centroid, the \<open>try\<close>
  block throws, and nothing is emitted.
\<close>

theorem cardinality_counterexample:
  "hasValidAddress (js_of_document shed) = Inr True \<and> \<not> isNamedPoi shed \<and>
   streetnumbers shed = Inr [''12''] \<and>
   emitted strict_rules init_state shed = Inr []"
proof -
  have "map obs (pushed (loop strict_rules init_state shed ''12'' ''Main St'')) = []"
    by (simp add: loop_obs shed_facts component_ok_def strict_rules_def)
  then have "pushed (loop strict_rules init_state shed ''12'' ''Main St'') = []"
    by simp
  then have "emitted strict_rules init_state shed = Inr []"
    by (simp add: emitted_valid [of shed "''12''" "''Main St''"] shed_facts)
  then show ?thesis
    by (simp add: shed_facts streetnumbers_eq [of shed "''12''"])
qed

text \<open>
  Claim C1, amended. A document that is neither a named POI nor has a valid address
  yields no document; a named POI without a valid address yields exactly the original;
  a document with a valid address, when no construction of an address document throws,
  yields exactly one address document for each house number, followed by the original
  when it is a named POI.
\<close>

theorem extractor_cardinality:
  "(hasValidAddress (js_of_document doc) = Inr False \<and> \<not> isNamedPoi doc \<longrightarrow>
      emitted R st doc = Inr []) \<and>
   (hasValidAddress (js_of_document doc) = Inr False \<and> isNamedPoi doc \<longrightarrow>
      emitted R st doc = Inr [doc]) \<and>
   (hasValidAddress (js_of_document doc) = Inr True \<and> all_constructed R st doc \<longrightarrow>
      (\<exists>nums recs. streetnumbers doc = Inr nums \<and> address_documents R st doc = Inr recs \<and>
         length recs = length nums \<and>
         emitted R st doc = Inr (if isNamedPoi doc then recs @ [doc] else recs)))"
proof (intro conjI impI)
  assume "hasValidAddress (js_of_document doc) = Inr False \<and> \<not> isNamedPoi doc"
  then show "emitted R st doc = Inr []"
    by (simp add: emitted_invalid)
next
  assume "hasValidAddress (js_of_document doc) = Inr False \<and> isNamedPoi doc"
  then show "emitted R st doc = Inr [doc]"
    by (simp add: emitted_invalid)
next
  assume a: "hasValidAddress (js_of_document doc) = Inr True \<and> all_constructed R st doc"
  then obtain number street where
    p: "get_prop (address doc) ''number'' = Inr (JStr number)" "number \<noteq> []"
      "get_prop (address doc) ''street'' = Inr (JStr street)" "street \<noteq> []"
    by (auto elim: valid_documentD)
  let ?recs = "pushed (loop R st doc number street)"
  have "streetnumbers doc = Inr (map js_trim (js_split (CHR '';'') number))"
    using p(1) by (rule streetnumbers_eq)
  moreover have "address_documents R st doc = Inr ?recs"
    using p(1,3) by (rule address_documents_eq)
  moreover have "length ?recs = length (map js_trim (js_split (CHR '';'') number))"
    using all_constructed_loop(3) [OF p(1,3)] a by simp
  moreover have "emitted R st doc = Inr (if isNamedPoi doc then ?recs @ [doc] else ?recs)"
    by (simp add: emitted_valid [OF p])
  ultimately show "\<exists>nums recs. streetnumbers doc = Inr nums \<and>
      address_documents R st doc = Inr recs \<and> length recs = length nums \<and>
      emitted R st doc = Inr (if isNamedPoi doc then recs @ [doc] else recs)"
    by blast
qed

theorem extractor_cardinality_witness:
  "hasValidAddress (js_of_document stub) = Inr False \<and> \<not> isNamedPoi stub \<and>
   emitted accept_all init_state stub = Inr [] \<and>
   hasValidAddress (js_of_document kiosk) = Inr False \<and> isNamedPoi kiosk \<and>
   emitted accept_all init_state kiosk = Inr [kiosk] \<and>
   hasValidAddress (js_of_document shed) = Inr True \<and> all_constructed accept_all init_state shed \<and>
   \<not> isNamedPoi shed \<and> streetnumbers shed = Inr [''12''] \<and>
   map_sum id length (emitted accept_all init_state shed) = Inr 1 \<and>
   hasValidAddress (js_of_document cafe) = Inr True \<and> all_constructed accept_all init_state cafe \<and>
   isNamedPoi cafe \<and> streetnumbers cafe = Inr [''12'', ''14''] \<and>
   map_sum id length (emitted accept_all init_state cafe) = Inr 3 \<and>
   map_sum id last (emitted accept_all init_state cafe) = Inr cafe"
proof -
  have s: "streetnumbers shed = Inr [''12'']" "all_constructed accept_all init_state shed"
    by (simp_all add: streetnumbers_eq [of shed "''12''"] shed_facts
        all_constructed_eq [of shed "''12''" "''Main St''"])
  have c: "streetnumbers cafe = Inr [''12'', ''14'']" "all_constructed accept_all init_state cafe"
    by (simp_all add: streetnumbers_eq [of cafe "''12; 14''"] cafe_facts
        all_constructed_eq [of cafe "''12; 14''" "''Main St''"])
  show ?thesis
    using extractor_cardinality [of stub accept_all init_state]
      extractor_cardinality [of kiosk accept_all init_state]
      extractor_cardinality [of shed accept_all init_state]
      extractor_cardinality [of cafe accept_all init_state]
    by (auto simp: stub_facts kiosk_facts shed_facts cafe_facts s c)
qed

subsection \<open>The type of an address document\<close>

text \<open>
  Claim C3, as stated, fails: the address documents of a named POI do not have the
  document type \<open>poi-address\<close>. \<open>cafe\<close> is a named POI with a valid address; both address
  documents emitted for it have the type \<open>address\<close>, the second argument of
  \<open>new Document( 'osm', 'address', ... )\<close>.
\<close>

theorem poi_address_type_counterexample:
  "isNamedPoi cafe \<and> hasValidAddress (js_of_document cafe) = Inr True \<and>
   map_sum id (map doc_type \<circ> derived cafe) (emitted strict_rules init_state cafe) =
     Inr [''address'', ''address'']"
proof -
  let ?recs = "pushed (loop strict_rules init_state cafe ''12; 14'' ''Main St'')"
  have e: "emitted strict_rules init_state cafe = Inr (?recs @ [cafe])"
    by (simp add: emitted_valid [of cafe "''12; 14''" "''Main St''"] cafe_facts)
  have "length ?recs = 2"
    using all_constructed_loop(3) [of cafe "''12; 14''" "''Main St''" strict_rules init_state]
    by (simp add: cafe_facts strict_cafe_constructed)
  moreover have "\<forall>r\<in>set ?recs. doc_type r = ''address''"
    using loop_shape by blast
  ultimately have "map doc_type ?recs = [''address'', ''address'']"
    by (rule map_two_same)
  then show ?thesis
    by (simp add: e cafe_facts derived_def)
qed

text \<open>
  Claim C3, amended. Every address document emitted has the document type \<open>address\<close>, in
  its metadata too, whether the input is a named POI or not. What tells the two apart is
  the identifier: it starts with \<open>osm-\<close>, the type of the input document and then
  \<open>-poi-address-\<close> when the input is a named POI, \<open>-address-\<close> when it is not.
\<close>

theorem address_document_type:
  "\<exists>out. emitted R st doc = Inr out \<and>
     (\<forall>r\<in>set (derived doc out).
        doc_type r = ''address'' \<and> meta r ''type'' = Some (JStr ''address'') \<and>
        (\<exists>rest. doc_id r =
           ''osm-'' @ doc_type doc @ ''-'' @
           (if isNamedPoi doc then ''poi-address'' else ''address'') @ ''-'' @ rest))"
proof -
  from emitted_derived [of R st doc] obtain out where
    e: "emitted R st doc = Inr out" and
    d: "derived doc out = [] \<or>
      (\<exists>number street. derived doc out = pushed (loop R st doc number street))"
    by blast
  have "\<forall>r\<in>set (derived doc out).
        doc_type r = ''address'' \<and> meta r ''type'' = Some (JStr ''address'') \<and>
        (\<exists>rest. doc_id r = ''osm-'' @ doc_type doc @ ''-'' @ address_type doc @ ''-'' @ rest)"
    using d loop_shape by fastforce
  with e show ?thesis
    unfolding address_type_def by blast
qed

theorem address_document_type_witness:
  "isNamedPoi cafe \<and>
   map_sum id (map doc_type \<circ> derived cafe) (emitted strict_rules init_state cafe) =
     Inr [''address'', ''address''] \<and>
   map_sum id (map doc_id \<circ> derived cafe) (emitted strict_rules init_state cafe) =
     Inr [''osm-venue-poi-address-node:7'', ''osm-venue-poi-address-node:7-14''] \<and>
   \<not> isNamedPoi shed \<and>
   map_sum id (map doc_type \<circ> derived shed) (emitted accept_all init_state shed) =
     Inr [''address''] \<and>
   map_sum id (map doc_id \<circ> derived shed) (emitted accept_all init_state shed) =
     Inr [''osm-venue-address-way:3'']"
proof -
  let ?recs = "pushed (loop strict_rules init_state cafe ''12; 14'' ''Main St'')"
  let ?srecs = "pushed (loop accept_all init_state shed ''12'' ''Main St'')"
  have e: "emitted strict_rules init_state cafe = Inr (?recs @ [cafe])"
    by (simp add: emitted_valid [of cafe "''12; 14''" "''Main St''"] cafe_facts)
  have se: "emitted accept_all init_state shed = Inr ?srecs"
    by (simp add: emitted_valid [of shed "''12''" "''Main St''"] shed_facts)
  have ids: "map doc_id ?recs =
      [''osm-venue-poi-address-node:7'', ''osm-venue-poi-address-node:7-14'']"
    using all_constructed_loop(1) [of cafe "''12; 14''" "''Main St''" strict_rules init_state]
    by (simp add: cafe_facts strict_cafe_constructed id_base_def new_id_def)
  have sc: "all_constructed accept_all init_state shed"
    by (simp add: all_constructed_eq [of shed "''12''" "''Main St''"] shed_facts)
  have sids: "map doc_id ?srecs = [''osm-venue-address-way:3'']"
    using all_constructed_loop(1) [of shed "''12''" "''Main St''" accept_all init_state]
    by (simp add: shed_facts sc id_base_def new_id_def)
  from address_document_type [of strict_rules init_state cafe] e
  have t: "\<forall>r\<in>set ?recs. doc_type r = ''address''"
    by (simp add: cafe_facts derived_def)
  from address_document_type [of accept_all init_state shed] se
  have st: "\<forall>r\<in>set ?srecs. doc_type r = ''address''"
    by (simp add: shed_facts derived_def)
  have "length (map doc_id ?recs) = 2" "length (map doc_id ?srecs) = 1"
    unfolding ids sids by simp_all
  then have "length ?recs = 2" "length ?srecs = 1"
    by simp_all
  with t st have "map doc_type ?recs = [''address'', ''address'']"
      "map doc_type ?srecs = [''address'']"
    by (simp_all add: map_two_same map_one_same)
  then show ?thesis
    by (simp add: e se ids sids cafe_facts shed_facts derived_def)
qed

subsection \<open>The order of the documents emitted\<close>

text \<open>
  Claim C7. For a named POI with a valid address, the documents emitted are the address
  documents, in the order of their house numbers, and then the original document: every
  address document precedes the original.
\<close>

theorem addresses_precede_original:
  assumes "isNamedPoi doc" and "hasValidAddress (js_of_document doc) = Inr True"
  shows "\<exists>recs. address_documents R st doc = Inr recs \<and>
           emitted R st doc = Inr (recs @ [doc])"
proof -
  from assms(2) obtain number street where
    p: "get_prop (address doc) ''number'' = Inr (JStr number)" "number \<noteq> []"
      "get_prop (address doc) ''street'' = Inr (JStr street)" "street \<noteq> []"
    by (rule valid_documentD)
  have "address_documents R st doc = Inr (pushed (loop R st doc number street))"
    using p(1,3) by (rule address_documents_eq)
  moreover have "emitted R st doc = Inr (pushed (loop R st doc number street) @ [doc])"
    using assms(1) by (simp add: emitted_valid [OF p])
  ultimately show ?thesis by blast
qed

theorem addresses_precede_original_witness:
  "isNamedPoi cafe \<and> hasValidAddress (js_of_document cafe) = Inr True \<and>
   map_sum id (map doc_id) (address_documents strict_rules init_state cafe) =
     Inr [''osm-venue-poi-address-node:7'', ''osm-venue-poi-address-node:7-14''] \<and>
   map_sum id (map doc_id) (emitted strict_rules init_state cafe) =
     Inr [''osm-venue-poi-address-node:7'', ''osm-venue-poi-address-node:7-14'', ''node:7'']"
proof -
  let ?recs = "pushed (loop strict_rules init_state cafe ''12; 14'' ''Main St'')"
  have a: "address_documents strict_rules init_state cafe = Inr ?recs"
    by (simp add: address_documents_eq [of cafe "''12; 14''" "''Main St''"] cafe_facts)
  have ids: "map doc_id ?recs =
      [''osm-venue-poi-address-node:7'', ''osm-venue-poi-address-node:7-14'']"
    using all_constructed_loop(1) [of cafe "''12; 14''" "''Main St''" strict_rules init_state]
    by (simp add: cafe_facts strict_cafe_constructed id_base_def new_id_def)
  from addresses_precede_original [of cafe strict_rules init_state] a
  have "emitted strict_rules init_state cafe = Inr (?recs @ [cafe])"
    by (simp add: cafe_facts)
  then show ?thesis
    by (simp add: a ids cafe_facts)
qed

subsection \<open>House numbers and names\<close>

text \<open>
  Claim C6, as stated, fails: a document with a valid address does not always yield one
  address document for each house number. \<open>barn\<close> has the house numbers 12 and 14 and no
  centroid; under the strict model both constructions throw and no address document is
  pushed.
\<close>

theorem house_number_counterexample:
  "hasValidAddress (js_of_document barn) = Inr True \<and>
   streetnumbers barn = Inr [''12'', ''14''] \<and>
   address_documents strict_rules init_state barn = Inr []"
proof -
  have "map obs (pushed (loop strict_rules init_state barn ''12;14'' ''Main St'')) = []"
    by (simp add: loop_obs barn_facts component_ok_def strict_rules_def)
  then have "pushed (loop strict_rules init_state barn ''12;14'' ''Main St'') = []"
    by (rule map_obs_Nil)
  then show ?thesis
    by (simp add: address_documents_eq [of barn "''12;14''" "''Main St''"] barn_facts
        streetnumbers_eq [of barn "''12;14''"])
qed

text \<open>
  Claim C6, amended. For a document with a valid address, the house numbers are the
  pieces of \<open>doc.address.number\<close> between semicolons, each trimmed of surrounding white
  space. When no construction of an address document throws, there is one address
  document for each house number, in their order, and its default name is the trimmed
  house number, one space and the street of the source document.
\<close>

theorem house_number_names:
  assumes "hasValidAddress (js_of_document doc) = Inr True"
    and "get_prop (address doc) ''number'' = Inr (JStr number)"
    and "get_prop (address doc) ''street'' = Inr (JStr street)"
    and "all_constructed R st doc"
  shows "streetnumbers doc = Inr (map js_trim (js_split (CHR '';'') number)) \<and>
         (\<exists>recs. address_documents R st doc = Inr recs \<and>
            emitted R st doc = Inr (if isNamedPoi doc then recs @ [doc] else recs) \<and>
            map (\<lambda>r. name r ''default'') recs =
              map (\<lambda>c. Some (js_trim c @ '' '' @ street)) (js_split (CHR '';'') number))"
proof -
  from assms(1) obtain number' street' where
    p: "get_prop (address doc) ''number'' = Inr (JStr number')" "number' \<noteq> []"
      "get_prop (address doc) ''street'' = Inr (JStr street')" "street' \<noteq> []"
    by (rule valid_documentD)
  with assms(2,3) have eq: "number' = number" "street' = street" by simp_all
  let ?recs = "pushed (loop R st doc number street)"
  have "address_documents R st doc = Inr ?recs"
    using assms(2,3) by (rule address_documents_eq)
  moreover have "emitted R st doc = Inr (if isNamedPoi doc then ?recs @ [doc] else ?recs)"
    using emitted_valid [OF p, of R st] by (simp add: eq)
  moreover have "map (\<lambda>r. name r ''default'') ?recs =
      map (\<lambda>c. Some (js_trim c @ '' '' @ street)) (js_split (CHR '';'') number)"
    using all_constructed_loop(2) [OF assms(2,3,4)] by (simp add: comp_def)
  moreover have "streetnumbers doc = Inr (map js_trim (js_split (CHR '';'') number))"
    using assms(2) by (rule streetnumbers_eq)
  ultimately show ?thesis by blast
qed

theorem house_number_names_witness:
  "hasValidAddress (js_of_document cafe) = Inr True \<and>
   get_prop (address cafe) ''number'' = Inr (JStr ''12; 14'') \<and>
   get_prop (address cafe) ''street'' = Inr (JStr ''Main St'') \<and>
   all_constructed strict_rules init_state cafe \<and>
   streetnumbers cafe = Inr [''12'', ''14''] \<and>
   map_sum id (map (\<lambda>r. name r ''default'')) (address_documents strict_rules init_state cafe) =
     Inr [Some ''12 Main St'', Some ''14 Main St'']"
  using house_number_names [of cafe "''12; 14''" "''Main St''" strict_rules init_state]
  by (auto simp: cafe_facts strict_cafe_constructed)

subsection \<open>A construction that throws\<close>

text \<open>
  Claim C4. When the construction of the address document for one house number throws,
  that house number is skipped and nothing is emitted for it, the error is logged with
  the source document, and the other house numbers and the forwarding of the original
  are unaffected. The code logs the error, but it skips the house number only when no
  earlier construction has succeeded: the variable \<open>record\<close> is declared before the loop
  and is not reset, so when the construction for a later house number throws, \<open>record\<close>
  still holds the document of an earlier one, the test \<open>record !== undefined\<close> succeeds
  and that document is pushed again. \<open>annex\<close> has the house numbers \<open>1\<close> and the empty
  string and a street of one space; the strict model accepts the name of the first and
  rejects the blank name of the second. The error is logged with the source document,
  and the document of the first house number is emitted twice.
\<close>

theorem stale_record_pushed_again:
  "hasValidAddress (js_of_document annex) = Inr True \<and>
   streetnumbers annex = Inr [''1'', []] \<and>
   component_ok strict_rules annex ''address'' '' '' ''1'' 0 0 \<and>
   \<not> component_ok strict_rules annex ''address'' '' '' [] 1 0 \<and>
   map_sum id (map obs) (address_documents strict_rules init_state annex) =
     Inr [(''osm-venue-address-way:3'', Some ''1  ''),
          (''osm-venue-address-way:3'', Some ''1  '')] \<and>
   address_log strict_rules init_state annex =
     Inr [LogText ''address_extractor error'', LogStack ModelError, LogDoc annex]"
proof -
  have c: "component_ok strict_rules annex ''address'' '' '' ''1'' 0 0"
    "\<not> component_ok strict_rules annex ''address'' '' '' [] (Suc 0) 0"
    "id_base annex 0 = (''way:3'', 0)"
    by (simp_all add: component_ok_def strict_rules_def annex_facts id_base_def new_id_def)
  have "map obs (pushed (loop strict_rules init_state annex ''1;'' '' '')) =
      [(''osm-venue-address-way:3'', Some ''1  ''), (''osm-venue-address-way:3'', Some ''1  '')]"
    by (simp add: loop_obs annex_facts c new_id_def)
  moreover have "address_log strict_rules init_state annex =
      Inr [LogText ''address_extractor error'', LogStack ModelError, LogDoc annex]"
    by (simp add: address_log_eq [of annex "''1;''" "'' ''"] annex_facts c)
  ultimately show ?thesis
    using c by (simp add: address_documents_eq [of annex "''1;''" "'' ''"] annex_facts
        streetnumbers_eq [of annex "''1;''"])
qed

subsection \<open>Derived identifiers\<close>




subsection \<open>The document constructor\<close>

text \<open>
  Claim C2. Whenever the construction of the document for a raw record fails, in the
  constructor or in a setter, the stage raises no error, emits no document for that
  record, logs the error and goes on with the next record as it would have without the
  failed one. The construction fails for the empty record, whatever the model accepts.
\<close>

theorem constructor_drops_failures:
  "(build_document R raw = Inl e \<longrightarrow>
      document_constructor R lg raw = Inr (lg @ [LogStack e], []) \<and>
      construct_all R lg (raw # raws) = construct_all R (lg @ [LogStack e]) raws) \<and>
   build_document R empty_record = Inl ModelError \<and>
   (\<exists>lg' out. construct_all R lg raws = Inr (lg', out))"
proof -
  have "\<exists>lg' out. construct_all R lg raws = Inr (lg', out)"
  proof (induction raws arbitrary: lg)
    case Nil
    show ?case by simp
  next
    case (Cons raw raws)
    obtain lg1 out1 where "document_constructor R lg raw = Inr (lg1, out1)"
      by (cases "build_document R raw") (auto simp: document_constructor_def)
    moreover obtain lg2 out2 where "construct_all R lg1 raws = Inr (lg2, out2)"
      using Cons.IH by blast
    ultimately show ?case by simp
  qed
  moreover have "build_document R empty_record = Inl ModelError"
    by (simp add: build_document_def empty_record_def)
  ultimately show ?thesis
    by (auto simp: document_constructor_def bind_def split: sum.splits)
qed

theorem constructor_drops_failures_witness:
  "build_document strict_rules empty_record = Inl ModelError \<and>
   document_constructor strict_rules [] empty_record = Inr ([LogStack ModelError], []) \<and>
   map_sum id (map doc_id \<circ> snd)
     (construct_all strict_rules []
        [empty_record, empty_record\<lparr> raw_id := Some ''X:1'', raw_type := Some ''X'' \<rparr>]) =
     Inr [''X:1'']"
proof -
  let ?rest = "[empty_record\<lparr> raw_id := Some ''X:1'', raw_type := Some ''X'' \<rparr>]"
  note t = constructor_drops_failures [of strict_rules empty_record ModelError "[]" ?rest]
  from t have b: "build_document strict_rules empty_record = Inl ModelError"
    by blast
  with t have d: "document_constructor strict_rules [] empty_record =
      Inr ([] @ [LogStack ModelError], [])"
    and s: "construct_all strict_rules [] (empty_record # ?rest) =
      construct_all strict_rules ([] @ [LogStack ModelError]) ?rest"
    by blast+
  have "map_sum id (map doc_id \<circ> snd)
     (construct_all strict_rules ([] @ [LogStack ModelError]) ?rest) = Inr [''X:1'']"
    by (simp add: document_constructor_def build_document_def empty_record_def
        resolve_centroid_def new_Document_def strict_rules_def)
  then have "map_sum id (map doc_id \<circ> snd)
     (construct_all strict_rules [] (empty_record # ?rest)) = Inr [''X:1'']"
    by (simp only: s)
  with b d show ?thesis by simp
qed

text \<open>
  Claim C9. When a raw record has both \<open>lat\<close> and \<open>lon\<close>, the centroid resolved is that
  pair, whatever its \<open>centroid\<close> field holds, and the document emitted, if the model
  accepts its id and that centroid, carries it; \<open>lat = 0\<close>, \<open>lon = 0\<close> gives the centroid
  \<open>(0, 0)\<close>, not an absent one.
\<close>

theorem centroid_from_lat_lon:
  "(raw_lat raw = Some la \<and> raw_lon raw = Some lo \<longrightarrow>
      resolve_centroid raw = Some (la, lo) \<and>
      (\<forall>d. build_document R raw = Inr d \<longrightarrow> center_point d = Some (la, lo)) \<and>
      (\<forall>i. raw_id raw = Some i \<and>
           ok_new R ''osm'' (case raw_type raw of None \<Rightarrow> ''venue'' | Some t \<Rightarrow> t) i \<and>
           ok_centroid R (Some (la, lo)) \<longrightarrow>
           (\<exists>d. document_constructor R lg raw = Inr (lg, [d]) \<and>
                center_point d = Some (la, lo)))) \<and>
   (raw_lat raw = Some 0 \<and> raw_lon raw = Some 0 \<longrightarrow>
      resolve_centroid raw = Some (0, 0) \<and>
      (\<forall>d. build_document R raw = Inr d \<longrightarrow> center_point d = Some (0, 0)))"
  by (auto simp: resolve_centroid_def build_document_def document_constructor_def
      new_Document_def setCentroid_def bind_eq_Inr split: option.splits if_splits)

theorem centroid_from_lat_lon_witness:
  "resolve_centroid (empty_record\<lparr> raw_id := Some ''X:1'', raw_lat := Some 1, raw_lon := Some 1,
      raw_centroid := Some (2, 2) \<rparr>) = Some (1, 1) \<and>
   map_sum id (map center_point \<circ> snd)
     (document_constructor strict_rules []
        (empty_record\<lparr> raw_id := Some ''X:1'', raw_lat := Some 1, raw_lon := Some 1,
           raw_centroid := Some (2, 2) \<rparr>)) = Inr [Some (1, 1)] \<and>
   resolve_centroid (empty_record\<lparr> raw_id := Some ''X:1'', raw_lat := Some 0,
      raw_lon := Some 0 \<rparr>) = Some (0, 0) \<and>
   map_sum id (map center_point \<circ> snd)
     (document_constructor strict_rules []
        (empty_record\<lparr> raw_id := Some ''X:1'', raw_lat := Some 0, raw_lon := Some 0 \<rparr>)) =
     Inr [Some (0, 0)]"
  using centroid_from_lat_lon [of "empty_record\<lparr> raw_id := Some ''X:1'', raw_lat := Some 1,
      raw_lon := Some 1, raw_centroid := Some (2, 2) \<rparr>" 1 1 strict_rules "[]"]
    centroid_from_lat_lon [of "empty_record\<lparr> raw_id := Some ''X:1'', raw_lat := Some 0,
      raw_lon := Some 0 \<rparr>" 0 0 strict_rules "[]"]
  by (auto simp: empty_record_def strict_rules_def)

end
